theory Spec2Isabelle
  imports Main "HOL-Library.Multiset"
begin

section \<open>Blog controller: data model\<close>

text \<open>
  The controller (\<^verbatim>\<open>getAllBlog\<close>, \<^verbatim>\<open>getOneBlog\<close>, \<^verbatim>\<open>createBlog\<close>, \<^verbatim>\<open>updateBlog\<close>,
  \<^verbatim>\<open>deleteBlog\<close>, \<^verbatim>\<open>reactToblog\<close>, \<^verbatim>\<open>getAuthorBlogs\<close>) is a set of request handlers over
  the stored collections of posts, comments and users. Each handler is embedded as a function from the stored
  collections and the request to a result and the collections afterwards. A handler
  that calls \<^verbatim>\<open>next(new ApiError(msg, status))\<close> returns \<open>Inl (ApiError msg status)\<close>;
  an exception that escapes the handler body and is forwarded by the \<^verbatim>\<open>TryCatch\<close> wrapper
  returns \<open>Inl (Thrown e)\<close>.

  Identifiers: a post id is a natural number, a user id and a viewer identifier are
  strings. JavaScript numbers are modelled by \<open>int\<close>; this agrees with the source as
  long as every value stays in the range where doubles are exact
  (\<open>safe_integer\<close> below).
\<close>

type_synonym uid = string
type_synonym bid = nat

datatype js_exception = TypeError | SyntaxError | ValidationError | MongoError

datatype error = ApiError string "nat option" | Thrown js_exception

record img =
  public_id :: string
  url :: string

text \<open>
  Modelled from the spec: the schema of \<^verbatim>\<open>models/blog.model.js\<close> is not part of the
  sources; the fields are those of the data model (title, content, tags, author,
  coverImage, images, likes, dislikes, views, viewedBy, createdAt). The sets
  \<open>likes\<close>, \<open>dislikes\<close> and \<open>viewedBy\<close> are stored as arrays, as the database has them.
\<close>

record Blog =
  blog_id :: bid
  title :: string
  content :: string
  tags :: "string list"
  author :: uid
  coverImage :: "img option"
  images :: "img list"
  likes :: "uid list"
  dislikes :: "uid list"
  views :: int
  viewedBy :: "string list"
  createdAt :: int

text \<open>
  Modelled from the spec: the schema of \<^verbatim>\<open>models/comment.model.js\<close> is not part of the
  sources; only the reference \<open>blog\<close> to the owning post is read by the controller.
\<close>

record Comment =
  comment_id :: nat
  comment :: string
  user :: uid
  blog :: bid

text \<open>
  Modelled from the spec: the user documents joined into a listing carry
  name, avatar, role and bio.
\<close>

record User =
  user_id :: uid
  name :: string
  avatar :: string
  role :: string
  bio :: string

record store =
  Blogs :: "Blog list"
  Comments :: "Comment list"
  Users :: "User list"

text \<open>
  The request body: \<^verbatim>\<open>req.body\<close> is handed to \<^verbatim>\<open>Blog.create\<close> and
  \<^verbatim>\<open>Blog.findOneAndUpdate\<close> as it is, so every field of the post may be present in it;
  \<^verbatim>\<open>reactToblog\<close> reads \<open>reaction\<close> from it.
\<close>

record body =
  b_title :: "string option"
  b_content :: "string option"
  b_tags :: "string list option"
  b_author :: "uid option"
  b_coverImage :: "img option"
  b_images :: "img list option"
  b_likes :: "uid list option"
  b_dislikes :: "uid list option"
  b_views :: "int option"
  b_viewedBy :: "string list option"
  b_reaction :: "string option"

record File =
  originalname :: string

record request =
  req_user :: "uid option"
  req_ip :: string
  param_id :: bid
  req_body :: body
  req_file :: "File option"
  req_files :: "File list"

record query =
  q_tags :: "string option"
  q_title :: "string option"
  q_sortBy :: "string option"
  q_page :: "string option"
  q_limit :: "string option"

text \<open>
  What the controller imports and does not define: the two constant tables of
  \<^verbatim>\<open>constants/blogConstants.js\<close>, the media-host helpers of \<^verbatim>\<open>utils/features.js\<close>
  (each call either returns or throws: \<open>None\<close> and \<open>False\<close> stand for a throw), the
  regular-expression engine (\<open>compile_regex t = None\<close> when \<^verbatim>\<open>new RegExp(t, "i")\<close> throws,
  otherwise the test the pattern performs on a title), the validators of the schema (on a
  new document and on an update), and
  the clock that stamps \<open>createdAt\<close>. The contents of the media host are not tracked.
\<close>

record env =
  BLOG_TAGS :: "string list"
  REACTIONS :: "string list"
  uploadFileToCloudinary :: "File \<Rightarrow> img option"
  uploadMultipleFilesToCloudinary :: "File \<Rightarrow> img option"
  deleteFileFromCloudinary :: "string \<Rightarrow> bool"
  compile_regex :: "string \<Rightarrow> (string \<Rightarrow> bool) option"
  create_valid :: "body \<Rightarrow> bool"
  update_valid :: "body \<Rightarrow> bool"
  clock :: int

section \<open>JavaScript library functions\<close>

text \<open>
  \<^verbatim>\<open>String.prototype.split(",")\<close>: the pieces between the commas; the empty string
  gives one empty piece.
\<close>

fun split_comma :: "string \<Rightarrow> string list" where
  "split_comma [] = [[]]"
| "split_comma (c # cs) =
     (if c = CHR '','' then [] # split_comma cs
      else (case split_comma cs of [] \<Rightarrow> [[c]] | w # ws \<Rightarrow> (c # w) # ws))"

text \<open>
  \<^verbatim>\<open>parseInt(string)\<close> with no radix: leading white space is dropped, then a sign, then
  a \<^verbatim>\<open>0x\<close> or \<^verbatim>\<open>0X\<close> prefix (which selects radix 16), then the longest run of digits of
  the radix is read; with no digit the result is \<^verbatim>\<open>NaN\<close> (\<open>None\<close>). An absent query
  parameter is \<^verbatim>\<open>undefined\<close>, which reads as \<^verbatim>\<open>NaN\<close>. Characters are code points
  below 256.
\<close>

definition is_ws :: "char \<Rightarrow> bool" where
  "is_ws c = (of_char c \<in> {9, 10, 11, 12, 13, 32, 160 :: nat})"

definition digit_val :: "char \<Rightarrow> nat option" where
  "digit_val c =
     (let n = (of_char c :: nat) in
      if 48 \<le> n \<and> n \<le> 57 then Some (n - 48)
      else if 97 \<le> n \<and> n \<le> 122 then Some (n - 87)
      else if 65 \<le> n \<and> n \<le> 90 then Some (n - 55)
      else None)"

definition is_digit :: "nat \<Rightarrow> char \<Rightarrow> bool" where
  "is_digit radix c = (case digit_val c of None \<Rightarrow> False | Some d \<Rightarrow> d < radix)"

definition digits_value :: "nat \<Rightarrow> string \<Rightarrow> int" where
  "digits_value radix z = int (foldl (\<lambda>acc c. acc * radix + (case digit_val c of None \<Rightarrow> 0 | Some d \<Rightarrow> d)) 0 z)"

definition strip_sign :: "string \<Rightarrow> int \<times> string" where
  "strip_sign s =
     (case s of
        [] \<Rightarrow> (1, [])
      | c # r \<Rightarrow> if c = CHR ''-'' then (- 1, r) else if c = CHR ''+'' then (1, r) else (1, s))"

definition strip_prefix :: "string \<Rightarrow> nat \<times> string" where
  "strip_prefix s =
     (case s of
        c # x # r \<Rightarrow>
          if c = CHR ''0'' \<and> (x = CHR ''x'' \<or> x = CHR ''X'') then (16, r) else (10, s)
      | _ \<Rightarrow> (10, s))"

definition parseInt :: "string option \<Rightarrow> int option" where
  "parseInt v =
     (case v of
        None \<Rightarrow> None
      | Some s \<Rightarrow>
          (let (sign, s2) = strip_sign (dropWhile is_ws s);
               (radix, s3) = strip_prefix s2;
               z = takeWhile (is_digit radix) s3
           in if z = [] then None else Some (sign * digits_value radix z)))"

text \<open>\<^verbatim>\<open>x || d\<close> on a number: \<^verbatim>\<open>NaN\<close> and zero are falsy.\<close>

definition or_default :: "int option \<Rightarrow> int \<Rightarrow> int" where
  "or_default x d = (case x of None \<Rightarrow> d | Some n \<Rightarrow> if n = 0 then d else n)"

text \<open>\<^verbatim>\<open>Number.isSafeInteger\<close>: the integers a double represents exactly.\<close>

definition safe_integer :: "int \<Rightarrow> bool" where
  "safe_integer n = (\<bar>n\<bar> \<le> 2 ^ 53 - 1)"

section \<open>Database operations\<close>

text \<open>
  A collection is the list of its documents in stored order. \<^verbatim>\<open>findById\<close> and
  \<^verbatim>\<open>findOne\<close> return the first document that matches, \<^verbatim>\<open>null\<close> being \<open>None\<close>.
\<close>

definition findById :: "Blog list \<Rightarrow> bid \<Rightarrow> Blog option" where
  "findById bs i = find (\<lambda>b. blog_id b = i) bs"

definition findOne :: "Blog list \<Rightarrow> bid \<Rightarrow> uid \<Rightarrow> Blog option" where
  "findOne bs i u = find (\<lambda>b. blog_id b = i \<and> author b = u) bs"

text \<open>\<^verbatim>\<open>doc.save()\<close> writes the document back under its \<^verbatim>\<open>_id\<close>.\<close>

fun save :: "Blog \<Rightarrow> Blog list \<Rightarrow> Blog list" where
  "save b [] = []"
| "save b (x # xs) = (if blog_id x = blog_id b then b # xs else x # save b xs)"

text \<open>\<^verbatim>\<open>findByIdAndDelete\<close> removes the first document with the id, if there is one.\<close>

fun findByIdAndDelete :: "bid \<Rightarrow> Blog list \<Rightarrow> Blog list" where
  "findByIdAndDelete i [] = []"
| "findByIdAndDelete i (x # xs) = (if blog_id x = i then xs else x # findByIdAndDelete i xs)"

text \<open>\<^verbatim>\<open>Comment.deleteMany({ blog: id })\<close>.\<close>

definition deleteMany :: "bid \<Rightarrow> Comment list \<Rightarrow> Comment list" where
  "deleteMany i cs = filter (\<lambda>c. blog c \<noteq> i) cs"

text \<open>
  \<^verbatim>\<open>Blog.create\<close>: the database gives the new document an \<^verbatim>\<open>_id\<close> that no stored
  document has. Fields absent from the body take their defaults.
\<close>

definition fresh_id :: "Blog list \<Rightarrow> bid" where
  "fresh_id bs = Suc (foldr max (map blog_id bs) 0)"

definition or_else :: "'a option \<Rightarrow> 'a \<Rightarrow> 'a" where
  "or_else x d = (case x of None \<Rightarrow> d | Some v \<Rightarrow> v)"

definition new_blog :: "bid \<Rightarrow> int \<Rightarrow> body \<Rightarrow> Blog" where
  "new_blog i now bd =
     \<lparr>blog_id = i,
      title = or_else (b_title bd) [],
      content = or_else (b_content bd) [],
      tags = or_else (b_tags bd) [],
      author = or_else (b_author bd) [],
      coverImage = b_coverImage bd,
      images = or_else (b_images bd) [],
      likes = or_else (b_likes bd) [],
      dislikes = or_else (b_dislikes bd) [],
      views = or_else (b_views bd) 0,
      viewedBy = or_else (b_viewedBy bd) [],
      createdAt = now\<rparr>"

text \<open>The update document of \<^verbatim>\<open>findOneAndUpdate\<close>: every field present is set.\<close>

definition apply_body :: "body \<Rightarrow> Blog \<Rightarrow> Blog" where
  "apply_body bd b =
     b\<lparr>title := or_else (b_title bd) (title b),
       content := or_else (b_content bd) (content b),
       tags := or_else (b_tags bd) (tags b),
       author := or_else (b_author bd) (author b),
       coverImage := (case b_coverImage bd of None \<Rightarrow> coverImage b | Some c \<Rightarrow> Some c),
       images := or_else (b_images bd) (images b),
       likes := or_else (b_likes bd) (likes b),
       dislikes := or_else (b_dislikes bd) (dislikes b),
       views := or_else (b_views bd) (views b),
       viewedBy := or_else (b_viewedBy bd) (viewedBy b)\<rparr>"

text \<open>
  \<^verbatim>\<open>findOneAndUpdate({ _id, author }, body)\<close>: the first document matching both is
  replaced by its update.
\<close>

fun findOneAndUpdate :: "bid \<Rightarrow> uid \<Rightarrow> body \<Rightarrow> Blog list \<Rightarrow> Blog list" where
  "findOneAndUpdate i u bd [] = []"
| "findOneAndUpdate i u bd (x # xs) =
     (if blog_id x = i \<and> author x = u then apply_body bd x # xs
      else x # findOneAndUpdate i u bd xs)"

text \<open>\<^verbatim>\<open>$addToSet\<close> and \<^verbatim>\<open>$pull\<close> on an array field.\<close>

definition addToSet :: "'a \<Rightarrow> 'a list \<Rightarrow> 'a list" where
  "addToSet x xs = (if x \<in> set xs then xs else xs @ [x])"

definition pull :: "'a \<Rightarrow> 'a list \<Rightarrow> 'a list" where
  "pull x xs = filter (\<lambda>y. y \<noteq> x) xs"

text \<open>
  \<^verbatim>\<open>sort({ k: -1 })\<close>: descending in the key. Documents with equal keys keep their
  stored order here; the database leaves their order open.
\<close>

definition sort_desc :: "('a \<Rightarrow> int) \<Rightarrow> 'a list \<Rightarrow> 'a list" where
  "sort_desc k xs = sort_key (\<lambda>x. - k x) xs"

section \<open>getAllBlog\<close>

record filter_query =
  fq_tags :: "string list option"
  fq_title :: "(string \<Rightarrow> bool) option"

datatype sort_query = Views_desc | Likes_desc | CreatedAt_desc

text \<open>
  A listed post: the document, the joined author, and the \<open>likesCount\<close> field that
  the aggregation adds.
\<close>

record BlogView =
  post :: Blog
  authorDoc :: "User option"
  likesCount :: "int option"

text \<open>Lines 17 to 25: an absent or empty \<open>tags\<close> parameter is falsy and sets no filter.\<close>

definition tagArray :: "env \<Rightarrow> string option \<Rightarrow> error + string list option" where
  "tagArray e t =
     (case t of
        None \<Rightarrow> Inr None
      | Some ts \<Rightarrow>
          if ts = [] then Inr None
          else if list_all (\<lambda>tag. tag \<in> set (BLOG_TAGS e)) (split_comma ts)
          then Inr (Some (split_comma ts))
          else Inl (ApiError ''Invalid tags'' None))"

text \<open>Lines 27 to 29: \<^verbatim>\<open>new RegExp(title, "i")\<close> throws on a malformed pattern.\<close>

definition titleRegex :: "env \<Rightarrow> string option \<Rightarrow> error + (string \<Rightarrow> bool) option" where
  "titleRegex e t =
     (case t of
        None \<Rightarrow> Inr None
      | Some p \<Rightarrow>
          if p = [] then Inr None
          else (case compile_regex e p of
                  None \<Rightarrow> Inl (Thrown SyntaxError)
                | Some m \<Rightarrow> Inr (Some m)))"

text \<open>
  \<^verbatim>\<open>{ tags: { $in: tagArray }, title: { $regex: ... } }\<close>: a post matches \<^verbatim>\<open>$in\<close> when
  one of its tags is in the array.
\<close>

definition matches :: "filter_query \<Rightarrow> Blog \<Rightarrow> bool" where
  "matches fq b =
     ((case fq_tags fq of None \<Rightarrow> True | Some ts \<Rightarrow> list_ex (\<lambda>t. t \<in> set ts) (tags b)) \<and>
      (case fq_title fq of None \<Rightarrow> True | Some m \<Rightarrow> m (title b)))"

text \<open>Lines 31 to 42.\<close>

definition sortQuery :: "string option \<Rightarrow> sort_query" where
  "sortQuery sortBy =
     (if sortBy = Some ''mostViewed'' then Views_desc
      else if sortBy = Some ''mostLiked'' then Likes_desc
      else CreatedAt_desc)"

text \<open>Lines 44 to 47.\<close>

definition pagination :: "query \<Rightarrow> int" where
  "pagination q = or_default (parseInt (q_page q)) 1"

definition limitation :: "query \<Rightarrow> int" where
  "limitation q = or_default (parseInt (q_limit q)) 10"

definition startIndex :: "query \<Rightarrow> int" where
  "startIndex q = (pagination q - 1) * limitation q"

text \<open>
  Lines 51 to 66, after \<^verbatim>\<open>$match\<close>: \<^verbatim>\<open>$addFields\<close>, \<^verbatim>\<open>$sort\<close>, \<^verbatim>\<open>$skip\<close>, \<^verbatim>\<open>$limit\<close>,
  \<^verbatim>\<open>$lookup\<close>, \<^verbatim>\<open>$unwind\<close>. The database rejects a pipeline whose \<^verbatim>\<open>$skip\<close> is negative
  or whose \<^verbatim>\<open>$limit\<close> is not positive. \<^verbatim>\<open>$lookup\<close> collects the users whose \<^verbatim>\<open>_id\<close> is
  the post's author, and \<^verbatim>\<open>$unwind\<close> yields one document for each of them, so none
  for a post whose author is not stored.
\<close>

definition likesCountOf :: "Blog \<Rightarrow> int" where
  "likesCountOf b = int (length (likes b))"

definition lookup_unwind :: "User list \<Rightarrow> Blog list \<Rightarrow> BlogView list" where
  "lookup_unwind us bs =
     concat (map (\<lambda>b. map (\<lambda>u. \<lparr>post = b, authorDoc = Some u, likesCount = Some (likesCountOf b)\<rparr>)
                          (filter (\<lambda>u. user_id u = author b) us)) bs)"

definition aggregate :: "User list \<Rightarrow> Blog list \<Rightarrow> int \<Rightarrow> int \<Rightarrow> error + BlogView list" where
  "aggregate us matched skip lim =
     (if skip < 0 \<or> lim \<le> 0 then Inl (Thrown MongoError)
      else Inr (lookup_unwind us (take (nat lim) (drop (nat skip) (sort_desc likesCountOf matched)))))"

text \<open>
  Lines 68 to 75: \<^verbatim>\<open>find(...).sort(...).skip(...).limit(...).populate(...)\<close>. The database
  rejects a negative skip; the driver sends a negative limit as its absolute value.
  \<^verbatim>\<open>populate\<close> puts the stored user, or \<^verbatim>\<open>null\<close>, in place of the author id. The sort
  \<open>Likes_desc\<close> never reaches this query (lemma \<open>sortQuery_find\<close> below); the stored
  order stands in for it.
\<close>

definition sort_documents :: "sort_query \<Rightarrow> Blog list \<Rightarrow> Blog list" where
  "sort_documents sq bs =
     (case sq of
        Views_desc \<Rightarrow> sort_desc views bs
      | CreatedAt_desc \<Rightarrow> sort_desc createdAt bs
      | Likes_desc \<Rightarrow> bs)"

definition populate :: "User list \<Rightarrow> Blog \<Rightarrow> BlogView" where
  "populate us b =
     \<lparr>post = b, authorDoc = find (\<lambda>u. user_id u = author b) us, likesCount = None\<rparr>"

definition find_page :: "User list \<Rightarrow> Blog list \<Rightarrow> sort_query \<Rightarrow> int \<Rightarrow> int \<Rightarrow> error + BlogView list" where
  "find_page us matched sq skip lim =
     (if skip < 0 then Inl (Thrown MongoError)
      else Inr (map (populate us) (take (nat \<bar>lim\<bar>) (drop (nat skip) (sort_documents sq matched)))))"

definition getAllBlog :: "env \<Rightarrow> store \<Rightarrow> query \<Rightarrow> error + BlogView list" where
  "getAllBlog e s q =
     (case tagArray e (q_tags q) of
        Inl err \<Rightarrow> Inl err
      | Inr tf \<Rightarrow>
          (case titleRegex e (q_title q) of
             Inl err \<Rightarrow> Inl err
           | Inr rf \<Rightarrow>
               (let filterQuery = \<lparr>fq_tags = tf, fq_title = rf\<rparr>;
                    matched = filter (matches filterQuery) (Blogs s)
                in case (if q_sortBy q = Some ''mostLiked''
                         then aggregate (Users s) matched (startIndex q) (limitation q)
                         else find_page (Users s) matched (sortQuery (q_sortBy q))
                                (startIndex q) (limitation q)) of
                     Inl err \<Rightarrow> Inl err
                   | Inr found \<Rightarrow>
                       if found = [] then Inl (ApiError ''No blog found'' (Some 404))
                       else Inr found)))"

section \<open>getOneBlog\<close>

text \<open>
  The response carries the counts and the post; the joins of the comments and of the
  author into the response read the collections and change nothing, and are left
  out of it.
\<close>

record one_response =
  r_likes :: nat
  r_dislikes :: nat
  r_views :: int
  r_data :: Blog

definition userIdentifier :: "request \<Rightarrow> string" where
  "userIdentifier req = (case req_user req of Some u \<Rightarrow> u | None \<Rightarrow> req_ip req)"

definition getOneBlog :: "store \<Rightarrow> request \<Rightarrow> (error + one_response) \<times> store" where
  "getOneBlog s req =
     (case findById (Blogs s) (param_id req) of
        None \<Rightarrow> (Inl (ApiError ''No Blog found with this id'' (Some 404)), s)
      | Some b \<Rightarrow>
          if userIdentifier req \<notin> set (viewedBy b)
          then (let b' = b\<lparr>views := views b + 1,
                            viewedBy := viewedBy b @ [userIdentifier req]\<rparr>
                in (Inr \<lparr>r_likes = length (likes b'), r_dislikes = length (dislikes b'),
                         r_views = views b', r_data = b'\<rparr>,
                    s\<lparr>Blogs := save b' (Blogs s)\<rparr>))
          else (Inr \<lparr>r_likes = length (likes b), r_dislikes = length (dislikes b),
                     r_views = views b, r_data = b\<rparr>, s))"

section \<open>createBlog\<close>

text \<open>
  Line 133 reads \<^verbatim>\<open>req.user._id\<close>, a \<^verbatim>\<open>TypeError\<close> without an authenticated user.
  \<^verbatim>\<open>Blog.create\<close> throws when the validators reject the body. Lines 136 to 150: the
  cover image; lines 152 to 175: the gallery, where a failed upload is dropped.
\<close>

definition successfulUploads :: "env \<Rightarrow> File list \<Rightarrow> img list" where
  "successfulUploads e fs = List.map_filter (uploadMultipleFilesToCloudinary e) fs"

definition createBlog :: "env \<Rightarrow> store \<Rightarrow> request \<Rightarrow> (error + Blog) \<times> store" where
  "createBlog e s req =
     (case req_user req of
        None \<Rightarrow> (Inl (Thrown TypeError), s)
      | Some u \<Rightarrow>
          (let bd = (req_body req)\<lparr>b_author := Some u\<rparr> in
           if \<not> create_valid e bd then (Inl (Thrown ValidationError), s)
           else
             (let b0 = new_blog (fresh_id (Blogs s)) (clock e) bd;
                  s0 = s\<lparr>Blogs := Blogs s @ [b0]\<rparr>
              in case (case req_file req of
                         None \<Rightarrow> Some (b0, s0)
                       | Some f \<Rightarrow>
                           (case uploadFileToCloudinary e f of
                              None \<Rightarrow> None
                            | Some r \<Rightarrow>
                                (let b1 = b0\<lparr>coverImage :=
                                            Some \<lparr>public_id = public_id r, url = url r\<rparr>\<rparr>
                                 in Some (b1, s0\<lparr>Blogs := save b1 (Blogs s0)\<rparr>)))) of
                   None \<Rightarrow>
                     (Inl (ApiError ''Error uploading cover image to Cloudinary'' (Some 500)),
                      s0\<lparr>Blogs := findByIdAndDelete (blog_id b0) (Blogs s0)\<rparr>)
                 | Some (b1, s1) \<Rightarrow>
                     if req_files req \<noteq> []
                     then (let b2 = b1\<lparr>images := images b1 @ successfulUploads e (req_files req)\<rparr>
                           in (Inr b2, s1\<lparr>Blogs := save b2 (Blogs s1)\<rparr>))
                     else (Inr b1, s1))))"

section \<open>updateBlog\<close>

text \<open>
  Lines 190 to 204, the cover image. Everything in the \<^verbatim>\<open>try\<close> block that throws ends
  in the error of line 202: reading \<^verbatim>\<open>blog.coverImage\<close> when no post has the id, the
  deletion of the old image (attempted when the post has a cover image with a non-empty
  \<^verbatim>\<open>public_id\<close>; \<open>old_cover_stays\<close> when it throws), the upload of the new one.
  Otherwise the new image goes into the update payload.
\<close>

definition upload_error :: error where
  "upload_error = ApiError ''Error uploading image to Cloudinary'' (Some 500)"

definition old_cover_stays :: "env \<Rightarrow> Blog \<Rightarrow> bool" where
  "old_cover_stays e b =
     (case coverImage b of
        None \<Rightarrow> False
      | Some c \<Rightarrow> public_id c \<noteq> [] \<and> \<not> deleteFileFromCloudinary e (public_id c))"

definition cover_payload :: "env \<Rightarrow> Blog option \<Rightarrow> request \<Rightarrow> error + body" where
  "cover_payload e found req =
     (case req_file req of
        None \<Rightarrow> Inr (req_body req)
      | Some f \<Rightarrow>
          (case found of
             None \<Rightarrow> Inl upload_error
           | Some b \<Rightarrow>
               if old_cover_stays e b then Inl upload_error
               else (case uploadFileToCloudinary e f of
                       None \<Rightarrow> Inl upload_error
                     | Some r \<Rightarrow>
                         Inr ((req_body req)\<lparr>b_coverImage :=
                                Some \<lparr>public_id = public_id r, url = url r\<rparr>\<rparr>))))"

text \<open>
  Lines 205 to 227, the gallery: the successful uploads are appended to the post found
  by id at line 188 and the post is saved, whoever its author is. With no such post,
  \<^verbatim>\<open>blog.images\<close> or \<^verbatim>\<open>blog.save()\<close> is a \<^verbatim>\<open>TypeError\<close> outside every \<^verbatim>\<open>try\<close>.
\<close>

definition gallery_append :: "env \<Rightarrow> Blog option \<Rightarrow> request \<Rightarrow> store \<Rightarrow> error + store" where
  "gallery_append e found req s =
     (if req_files req = [] then Inr s
      else (case found of
              None \<Rightarrow> Inl (Thrown TypeError)
            | Some b \<Rightarrow>
                Inr (s\<lparr>Blogs := save (b\<lparr>images := images b @ successfulUploads e (req_files req)\<rparr>)
                                   (Blogs s)\<rparr>)))"

text \<open>
  Lines 229 to 248. With \<^verbatim>\<open>runValidators\<close> the update is validated before the query
  is sent.
\<close>

definition not_authorized :: error where
  "not_authorized =
     ApiError ''No comment found with this id or you are not authorized to update this comment''
       (Some 404)"

definition updateBlog :: "env \<Rightarrow> store \<Rightarrow> request \<Rightarrow> (error + Blog) \<times> store" where
  "updateBlog e s req =
     (case req_user req of
        None \<Rightarrow> (Inl (Thrown TypeError), s)
      | Some userId \<Rightarrow>
          (let found = findById (Blogs s) (param_id req) in
           case cover_payload e found req of
             Inl err \<Rightarrow> (Inl err, s)
           | Inr bd \<Rightarrow>
               (case gallery_append e found req s of
                  Inl err \<Rightarrow> (Inl err, s)
                | Inr s1 \<Rightarrow>
                    if \<not> update_valid e bd then (Inl (Thrown ValidationError), s1)
                    else (case findOne (Blogs s1) (param_id req) userId of
                            None \<Rightarrow> (Inl not_authorized, s1)
                          | Some b \<Rightarrow>
                              (Inr (apply_body bd b),
                               s1\<lparr>Blogs := findOneAndUpdate (param_id req) userId bd (Blogs s1)\<rparr>)))))"

section \<open>deleteBlog\<close>

definition not_deletable :: error where
  "not_deletable =
     ApiError ''No blog found with this id or you are not authorized to delete this blog''
       (Some 404)"

definition deleteBlog :: "store \<Rightarrow> request \<Rightarrow> (error + unit) \<times> store" where
  "deleteBlog s req =
     (case req_user req of
        None \<Rightarrow> (Inl (Thrown TypeError), s)
      | Some userId \<Rightarrow>
          (case findOne (Blogs s) (param_id req) userId of
             None \<Rightarrow> (Inl not_deletable, s)
           | Some b \<Rightarrow>
               (Inr (),
                s\<lparr>Blogs := findByIdAndDelete (param_id req) (Blogs s),
                  Comments := deleteMany (param_id req) (Comments s)\<rparr>)))"

section \<open>reactToblog\<close>

datatype react = Like | Dislike

record react_response =
  rr_likes :: "uid list"
  rr_dislikes :: "uid list"
  isLiked :: bool
  isDisliked :: bool

text \<open>
  Lines 285 to 290: \<open>react\<close> stays \<^verbatim>\<open>undefined\<close> for a reaction of the table that is
  neither of the two, and the update of line 292 then changes nothing.
\<close>

definition react_of :: "string option \<Rightarrow> react option" where
  "react_of reaction =
     (if reaction = Some ''like'' then Some Like
      else if reaction = Some ''dislike'' then Some Dislike
      else None)"

definition apply_react :: "react option \<Rightarrow> uid \<Rightarrow> Blog \<Rightarrow> Blog" where
  "apply_react r u b =
     (case r of
        None \<Rightarrow> b
      | Some Like \<Rightarrow> b\<lparr>likes := addToSet u (likes b), dislikes := pull u (dislikes b)\<rparr>
      | Some Dislike \<Rightarrow> b\<lparr>dislikes := addToSet u (dislikes b), likes := pull u (likes b)\<rparr>)"

definition reactToblog :: "env \<Rightarrow> store \<Rightarrow> request \<Rightarrow> (error + react_response) \<times> store" where
  "reactToblog e s req =
     (case req_user req of
        None \<Rightarrow> (Inl (Thrown TypeError), s)
      | Some userId \<Rightarrow>
          if b_reaction (req_body req) \<notin> Some ` set (REACTIONS e)
          then (Inl (ApiError ''Invalid reactions'' None), s)
          else (case findById (Blogs s) (param_id req) of
                  None \<Rightarrow> (Inl (ApiError ''No blog found with this id'' (Some 404)), s)
                | Some b \<Rightarrow>
                    (let updatedBlog = apply_react (react_of (b_reaction (req_body req))) userId b
                     in (Inr \<lparr>rr_likes = likes updatedBlog, rr_dislikes = dislikes updatedBlog,
                              isLiked = (userId \<in> set (likes updatedBlog)),
                              isDisliked = (userId \<in> set (dislikes updatedBlog))\<rparr>,
                         s\<lparr>Blogs := save updatedBlog (Blogs s)\<rparr>))))"

section \<open>getAuthorBlogs\<close>

definition getAuthorBlogs :: "store \<Rightarrow> request \<Rightarrow> error + Blog list" where
  "getAuthorBlogs s req =
     (case findById (Blogs s) (param_id req) of
        None \<Rightarrow> Inl (ApiError ''Blog not found'' (Some 404))
      | Some b \<Rightarrow>
          (let authorBlogs = take 4 (sort_desc createdAt (filter (\<lambda>x. author x = author b) (Blogs s)))
           in if authorBlogs = []
              then Inl (ApiError ''No other blogs found by this author'' (Some 404))
              else Inr authorBlogs))"

section \<open>Sequences of reactions and the exclusion of likes and dislikes\<close>

definition exclusive :: "Blog \<Rightarrow> bool" where
  "exclusive b = (set (likes b) \<inter> set (dislikes b) = {})"

fun react_all :: "env \<Rightarrow> store \<Rightarrow> request list \<Rightarrow> store" where
  "react_all e s [] = s"
| "react_all e s (r # rs) = react_all e (snd (reactToblog e s r)) rs"

section \<open>A concrete environment and store\<close>

text \<open>
  The uploads of \<open>env0\<close> fail for the file \<^verbatim>\<open>broken.png\<close> and succeed for every other
  file; its regular expressions are those that compare the whole title.
\<close>

definition env0 :: env where
  "env0 = \<lparr>BLOG_TAGS = [''tech'', ''life'', ''travel''],
           REACTIONS = [''like'', ''dislike''],
           uploadFileToCloudinary =
             (\<lambda>f. if originalname f = ''broken.png'' then None
                  else Some \<lparr>public_id = originalname f, url = ''https://media/'' @ originalname f\<rparr>),
           uploadMultipleFilesToCloudinary =
             (\<lambda>f. if originalname f = ''broken.png'' then None
                  else Some \<lparr>public_id = originalname f, url = ''https://media/'' @ originalname f\<rparr>),
           deleteFileFromCloudinary = (\<lambda>p. True),
           compile_regex = (\<lambda>p. if p = ''('' then None else Some (\<lambda>t. p = t)),
           create_valid = (\<lambda>bd. True),
           update_valid = (\<lambda>bd. True),
           clock = 100\<rparr>"

definition mk_blog :: "bid \<Rightarrow> uid \<Rightarrow> uid list \<Rightarrow> uid list \<Rightarrow> int \<Rightarrow> Blog" where
  "mk_blog i a ls ds t =
     \<lparr>blog_id = i, title = ''post'', content = ''text'', tags = [''tech''], author = a,
      coverImage = None, images = [], likes = ls, dislikes = ds, views = 0,
      viewedBy = [], createdAt = t\<rparr>"

definition mk_user :: "uid \<Rightarrow> User" where
  "mk_user u = \<lparr>user_id = u, name = u, avatar = [], role = ''user'', bio = []\<rparr>"

definition store0 :: store where
  "store0 = \<lparr>Blogs = [mk_blog 11 ''alice'' [''bob''] [''carol''] 10,
                      mk_blog 12 ''bob'' [] [] 20],
             Comments = [\<lparr>comment_id = 1, comment = ''nice'', user = ''bob'', blog = 11\<rparr>,
                         \<lparr>comment_id = 2, comment = ''hm'', user = ''alice'', blog = 12\<rparr>],
             Users = [mk_user ''alice'', mk_user ''bob'']\<rparr>"

definition no_body :: body where
  "no_body = \<lparr>b_title = None, b_content = None, b_tags = None, b_author = None,
              b_coverImage = None, b_images = None, b_likes = None, b_dislikes = None,
              b_views = None, b_viewedBy = None, b_reaction = None\<rparr>"

definition mk_req :: "uid option \<Rightarrow> bid \<Rightarrow> body \<Rightarrow> request" where
  "mk_req u i bd =
     \<lparr>req_user = u, req_ip = ''10.0.0.7'', param_id = i, req_body = bd,
      req_file = None, req_files = []\<rparr>"

definition react_req :: "uid \<Rightarrow> bid \<Rightarrow> string \<Rightarrow> request" where
  "react_req u i r = mk_req (Some u) i (no_body\<lparr>b_reaction := Some r\<rparr>)"

text \<open>A store whose post has been viewed by \<open>bob\<close>, and the view counter of a stored post.\<close>

definition store1 :: store where
  "store1 = store0\<lparr>Blogs := [(mk_blog 11 ''alice'' [] [] 10)\<lparr>views := 1, viewedBy := [''bob'']\<rparr>]\<rparr>"

definition views_of :: "store \<Rightarrow> bid \<Rightarrow> int option" where
  "views_of s i = map_option views (findById (Blogs s) i)"

definition view_req :: "uid option \<Rightarrow> string \<Rightarrow> bid \<Rightarrow> request" where
  "view_req u a i = (mk_req u i no_body)\<lparr>req_ip := a\<rparr>"

text \<open>
  A store of twelve posts with the tag \<^verbatim>\<open>tech\<close>, of two authors, with like counts
  3, 7, 1, 9, 0, 5, 11, 2, 8, 4, 10, 6 and creation times 1 to 12.
\<close>

definition fans :: "nat \<Rightarrow> uid list" where
  "fans n = map (\<lambda>k. replicate (Suc k) CHR ''u'') [0..<n]"

definition store2 :: store where
  "store2 = \<lparr>Blogs = [mk_blog 101 ''alice'' (fans 3) [] 1, mk_blog 102 ''bob'' (fans 7) [] 2,
                      mk_blog 103 ''alice'' (fans 1) [] 3, mk_blog 104 ''bob'' (fans 9) [] 4,
                      mk_blog 105 ''alice'' (fans 0) [] 5, mk_blog 106 ''bob'' (fans 5) [] 6,
                      mk_blog 107 ''alice'' (fans 11) [] 7, mk_blog 108 ''bob'' (fans 2) [] 8,
                      mk_blog 109 ''alice'' (fans 8) [] 9, mk_blog 110 ''bob'' (fans 4) [] 10,
                      mk_blog 111 ''alice'' (fans 10) [] 11, mk_blog 112 ''bob'' (fans 6) [] 12],
             Comments = [],
             Users = [mk_user ''alice'', mk_user ''bob'']\<rparr>"

text \<open>A request with a title, an optional cover-image file and gallery files, by their names.\<close>

definition upload_req :: "uid \<Rightarrow> bid \<Rightarrow> string option \<Rightarrow> string list \<Rightarrow> request" where
  "upload_req u i c g =
     (mk_req (Some u) i (no_body\<lparr>b_title := Some ''hello''\<rparr>))
       \<lparr>req_file := map_option (\<lambda>n. \<lparr>originalname = n\<rparr>) c,
        req_files := map (\<lambda>n. \<lparr>originalname = n\<rparr>) g\<rparr>"

text \<open>A listing query with a tag filter only, and a store whose second post has another tag.\<close>

definition tag_query :: "string \<Rightarrow> query" where
  "tag_query ts = \<lparr>q_tags = Some ts, q_title = None, q_sortBy = None, q_page = None, q_limit = None\<rparr>"

definition store3 :: store where
  "store3 = store0\<lparr>Blogs := [mk_blog 11 ''alice'' [''bob''] [''carol''] 10,
                            (mk_blog 12 ''bob'' [] [] 20)\<lparr>tags := [''travel'']\<rparr>]\<rparr>"


text \<open>A listing query with a page and a limit only.\<close>

definition page_query :: "string option \<Rightarrow> string option \<Rightarrow> query" where
  "page_query p l = \<lparr>q_tags = None, q_title = None, q_sortBy = None, q_page = p, q_limit = l\<rparr>"



section \<open>Properties of the database operations\<close>

lemmas ex_defs = env0_def mk_blog_def mk_user_def store0_def no_body_def mk_req_def react_req_def

lemma findById_save:
  "findById (save b bs) i =
     (if i = blog_id b then map_option (\<lambda>_. b) (findById bs i) else findById bs i)"
  by (induction bs) (auto simp: findById_def)

lemma save_save: "save b (save b bs) = save b bs"
  by (induction bs) auto

lemma apply_react_id: "blog_id (apply_react r u b) = blog_id b"
  by (auto simp: apply_react_def split: option.splits react.splits)

lemma addToSet_idem: "addToSet x (addToSet x xs) = addToSet x xs"
  by (simp add: addToSet_def)

lemma pull_idem: "pull x (pull x xs) = pull x xs"
  by (simp add: pull_def)

lemma apply_react_idem: "apply_react r u (apply_react r u b) = apply_react r u b"
  by (auto simp: apply_react_def addToSet_idem pull_idem split: option.splits react.splits)

lemma findById_blog_id: "findById bs i = Some b \<Longrightarrow> blog_id b = i"
  by (auto simp: findById_def find_Some_iff)

lemma exclusive_apply_react: "exclusive b \<Longrightarrow> exclusive (apply_react r u b)"
  by (auto simp: exclusive_def apply_react_def addToSet_def pull_def split: option.splits react.splits)

lemma list_all_save: "list_all P bs \<Longrightarrow> P b \<Longrightarrow> list_all P (save b bs)"
  by (induction bs) auto

lemma findById_mem: "findById bs i = Some b \<Longrightarrow> b \<in> set bs"
  by (auto simp: findById_def find_Some_iff)

lemma reactToblog_keeps_exclusive:
  "list_all exclusive (Blogs s) \<Longrightarrow> list_all exclusive (Blogs (snd (reactToblog e s r)))"
proof -
  assume a: "list_all exclusive (Blogs s)"
  have "\<And>b. findById (Blogs s) (param_id r) = Some b \<Longrightarrow> exclusive b"
    using a findById_mem by (fastforce simp: list_all_iff)
  then show ?thesis
    using a
    by (auto simp: reactToblog_def Let_def split: option.splits
        intro!: list_all_save exclusive_apply_react)
qed

lemma react_all_keeps_exclusive:
  "list_all exclusive (Blogs s) \<Longrightarrow> list_all exclusive (Blogs (react_all e s rs))"
  by (induction rs arbitrary: s) (auto simp: reactToblog_keeps_exclusive)

lemma reactToblog_found:
  assumes "req_user req = Some u" and "findById (Blogs s) (param_id req) = Some b"
    and "b_reaction (req_body req) = Some x" and "x \<in> set (REACTIONS e)"
  shows "findById (Blogs (snd (reactToblog e s req))) (param_id req) =
           Some (apply_react (react_of (Some x)) u b)"
  using assms
  by (simp add: reactToblog_def Let_def findById_save apply_react_id findById_blog_id)

section \<open>reactToblog: likes and dislikes exclude each other\<close>

text \<open>
  C3. Starting from posts in which no user is among both the likes and the dislikes,
  after every prefix of every sequence of \<open>reactToblog\<close> requests (valid or not, by any
  users, on any posts) no post has a user among both. A "like" by user \<open>u\<close> on a stored
  post puts \<open>u\<close> into the likes with \<^verbatim>\<open>$addToSet\<close> and takes \<open>u\<close> out of the dislikes
  with \<^verbatim>\<open>$pull\<close> in the one update, so that afterwards \<open>u\<close> is in the likes and not in
  the dislikes; a "dislike" does the reverse.
\<close>

theorem reactToblog_exclusive:
  assumes "list_all exclusive (Blogs s)"
  shows "list_all exclusive (Blogs (react_all e s (take n rs))) \<and>
    (\<forall>req u b. req_user req = Some u \<longrightarrow> findById (Blogs s) (param_id req) = Some b \<longrightarrow>
       b_reaction (req_body req) = Some ''like'' \<longrightarrow> ''like'' \<in> set (REACTIONS e) \<longrightarrow>
       findById (Blogs (snd (reactToblog e s req))) (param_id req) =
         Some (b\<lparr>likes := addToSet u (likes b), dislikes := pull u (dislikes b)\<rparr>) \<and>
       u \<in> set (addToSet u (likes b)) \<and> u \<notin> set (pull u (dislikes b))) \<and>
    (\<forall>req u b. req_user req = Some u \<longrightarrow> findById (Blogs s) (param_id req) = Some b \<longrightarrow>
       b_reaction (req_body req) = Some ''dislike'' \<longrightarrow> ''dislike'' \<in> set (REACTIONS e) \<longrightarrow>
       findById (Blogs (snd (reactToblog e s req))) (param_id req) =
         Some (b\<lparr>dislikes := addToSet u (dislikes b), likes := pull u (likes b)\<rparr>) \<and>
       u \<in> set (addToSet u (dislikes b)) \<and> u \<notin> set (pull u (likes b)))"
proof (intro conjI allI impI)
  show "list_all exclusive (Blogs (react_all e s (take n rs)))"
    using assms by (rule react_all_keeps_exclusive)
next
  fix req :: request and u b
  assume "req_user req = Some u" "findById (Blogs s) (param_id req) = Some b"
    "b_reaction (req_body req) = Some ''like''" "''like'' \<in> set (REACTIONS e)"
  then have "findById (Blogs (snd (reactToblog e s req))) (param_id req) =
      Some (apply_react (react_of (Some ''like'')) u b)"
    by (rule reactToblog_found)
  then show "findById (Blogs (snd (reactToblog e s req))) (param_id req) =
         Some (b\<lparr>likes := addToSet u (likes b), dislikes := pull u (dislikes b)\<rparr>)"
    by (simp add: react_of_def apply_react_def)
next
  fix req :: request and u b
  assume "req_user req = Some u" "findById (Blogs s) (param_id req) = Some b"
    "b_reaction (req_body req) = Some ''dislike''" "''dislike'' \<in> set (REACTIONS e)"
  then have "findById (Blogs (snd (reactToblog e s req))) (param_id req) =
      Some (apply_react (react_of (Some ''dislike'')) u b)"
    by (rule reactToblog_found)
  then show "findById (Blogs (snd (reactToblog e s req))) (param_id req) =
         Some (b\<lparr>dislikes := addToSet u (dislikes b), likes := pull u (likes b)\<rparr>)"
    by (simp add: react_of_def apply_react_def)
qed (simp_all add: addToSet_def pull_def)

theorem reactToblog_exclusive_witness:
  "list_all exclusive (Blogs store0) \<and>
   list_all exclusive
     (Blogs (react_all env0 store0
        (take 2 [react_req ''carol'' 11 ''like'', react_req ''bob'' 11 ''dislike'']))) \<and>
   findById (Blogs (snd (reactToblog env0 store0 (react_req ''carol'' 11 ''like'')))) 11 =
     Some (mk_blog 11 ''alice'' [''bob'', ''carol''] [] 10)"
proof -
  have h: "list_all exclusive (Blogs store0)"
    by (simp add: ex_defs exclusive_def)
  have f: "findById (Blogs store0) 11 = Some (mk_blog 11 ''alice'' [''bob''] [''carol''] 10)"
    by (simp add: ex_defs findById_def)
  have l: "''like'' \<in> set (REACTIONS env0)" by (simp add: env0_def)
  have u: "req_user (react_req ''carol'' 11 ''like'') = Some ''carol''"
    and p: "param_id (react_req ''carol'' 11 ''like'') = 11"
    and r: "b_reaction (req_body (react_req ''carol'' 11 ''like'')) = Some ''like''"
    by (simp_all add: react_req_def mk_req_def no_body_def)
  note t = reactToblog_exclusive [OF h, of env0 2
      "[react_req ''carol'' 11 ''like'', react_req ''bob'' 11 ''dislike'']"]
  note q = t [THEN conjunct2, THEN conjunct1, rule_format,
      of "react_req ''carol'' 11 ''like''" "''carol''"
         "mk_blog 11 ''alice'' [''bob''] [''carol''] 10", OF u _ r l, THEN conjunct1]
  have "findById (Blogs (snd (reactToblog env0 store0 (react_req ''carol'' 11 ''like'')))) 11 =
     Some (mk_blog 11 ''alice'' [''bob'', ''carol''] [] 10)"
    using q f by (simp add: p mk_blog_def addToSet_def pull_def)
  with h t show ?thesis by simp
qed

section \<open>reactToblog: the same reaction twice\<close>

text \<open>
  C10. Sending the same \<open>reactToblog\<close> request a second time, right after the first,
  returns the same response and leaves the stored posts (hence the likes and the
  dislikes of every post) as the first request left them: the reaction update is
  idempotent.
\<close>

theorem reactToblog_idempotent:
  "reactToblog e (snd (reactToblog e s req)) req = reactToblog e s req"
proof (cases "req_user req")
  case None
  then show ?thesis by (simp add: reactToblog_def)
next
  case (Some u)
  show ?thesis
  proof (cases "b_reaction (req_body req) \<in> Some ` set (REACTIONS e)")
    case False
    with Some show ?thesis by (simp add: reactToblog_def)
  next
    case True
    show ?thesis
    proof (cases "findById (Blogs s) (param_id req)")
      case None
      with Some True show ?thesis by (simp add: reactToblog_def)
    next
      case (Some b)
      let ?b' = "apply_react (react_of (b_reaction (req_body req))) u b"
      have i: "blog_id ?b' = param_id req"
        using Some by (simp add: apply_react_id findById_blog_id)
      have f: "findById (save ?b' (Blogs s)) (param_id req) = Some ?b'"
        using Some i by (simp add: findById_save)
      show ?thesis
        using \<open>req_user req = Some u\<close> True Some f
        by (simp add: reactToblog_def Let_def apply_react_idem save_save)
    qed
  qed
qed

section \<open>getOneBlog: one view for each viewer\<close>

lemma getOneBlog_recorded:
  "findById (Blogs s) (param_id r) = Some b \<Longrightarrow> userIdentifier r \<in> set (viewedBy b) \<Longrightarrow>
   snd (getOneBlog s r) = s"
  by (simp add: getOneBlog_def)

lemma getOneBlog_fresh:
  assumes "findById (Blogs s) (param_id r) = Some b" and "userIdentifier r \<notin> set (viewedBy b)"
  shows "findById (Blogs (snd (getOneBlog s r))) (param_id r) =
           Some (b\<lparr>views := views b + 1, viewedBy := viewedBy b @ [userIdentifier r]\<rparr>)"
  using assms by (simp add: getOneBlog_def Let_def findById_save findById_blog_id)

text \<open>
  C2, as the code has it. For a stored post and a viewer identifier (the id of the
  authenticated user, else the network address): when the identifier is already in
  \<open>viewedBy\<close>, \<open>getOneBlog\<close> changes nothing. When it is not, the first call adds 1 to
  \<open>views\<close> and appends the identifier to \<open>viewedBy\<close>, where it then stands once; a
  second call with the same identifier changes nothing more, so the two calls add
  exactly 1; a second call with another identifier that is not recorded either adds
  1 again, so that two distinct new identifiers add exactly 1 each.
\<close>

theorem getOneBlog_counts_viewer_once:
  assumes "findById (Blogs s) (param_id r) = Some b" and "param_id r' = param_id r"
  shows "(userIdentifier r \<in> set (viewedBy b) \<longrightarrow> snd (getOneBlog s r) = s) \<and>
    (userIdentifier r \<notin> set (viewedBy b) \<longrightarrow>
       findById (Blogs (snd (getOneBlog s r))) (param_id r) =
         Some (b\<lparr>views := views b + 1, viewedBy := viewedBy b @ [userIdentifier r]\<rparr>) \<and>
       count_list (viewedBy b @ [userIdentifier r]) (userIdentifier r) = 1 \<and>
       (userIdentifier r' = userIdentifier r \<longrightarrow>
          snd (getOneBlog (snd (getOneBlog s r)) r') = snd (getOneBlog s r)) \<and>
       (userIdentifier r' \<noteq> userIdentifier r \<longrightarrow> userIdentifier r' \<notin> set (viewedBy b) \<longrightarrow>
          findById (Blogs (snd (getOneBlog (snd (getOneBlog s r)) r'))) (param_id r) =
            Some (b\<lparr>views := views b + 2,
                    viewedBy := viewedBy b @ [userIdentifier r, userIdentifier r']\<rparr>)))"
proof (intro conjI impI)
  assume "userIdentifier r \<in> set (viewedBy b)"
  with assms(1) show "snd (getOneBlog s r) = s" by (rule getOneBlog_recorded)
next
  assume n: "userIdentifier r \<notin> set (viewedBy b)"
  let ?b1 = "b\<lparr>views := views b + 1, viewedBy := viewedBy b @ [userIdentifier r]\<rparr>"
  let ?s1 = "snd (getOneBlog s r)"
  show f1: "findById (Blogs ?s1) (param_id r) = Some ?b1"
    using assms(1) n by (rule getOneBlog_fresh)
  show "count_list (viewedBy b @ [userIdentifier r]) (userIdentifier r) = 1"
    using n by (simp add: count_list_0_iff)
  {
    assume "userIdentifier r' = userIdentifier r"
    then have m: "userIdentifier r' \<in> set (viewedBy ?b1)" by simp
    have g: "findById (Blogs ?s1) (param_id r') = Some ?b1" using f1 assms(2) by simp
    show "snd (getOneBlog ?s1 r') = ?s1"
      by (rule getOneBlog_recorded [OF g m])
  }
  {
    assume d: "userIdentifier r' \<noteq> userIdentifier r" and n': "userIdentifier r' \<notin> set (viewedBy b)"
    then have m: "userIdentifier r' \<notin> set (viewedBy ?b1)" by simp
    have g: "findById (Blogs ?s1) (param_id r') = Some ?b1" using f1 assms(2) by simp
    have "findById (Blogs (snd (getOneBlog ?s1 r'))) (param_id r') =
        Some (?b1\<lparr>views := views ?b1 + 1, viewedBy := viewedBy ?b1 @ [userIdentifier r']\<rparr>)"
      by (rule getOneBlog_fresh [OF g m])
    then show "findById (Blogs (snd (getOneBlog ?s1 r'))) (param_id r) =
            Some (b\<lparr>views := views b + 2,
                    viewedBy := viewedBy b @ [userIdentifier r, userIdentifier r']\<rparr>)"
      using assms(2) by simp
  }
qed

theorem getOneBlog_counts_viewer_once_witness:
  "findById (Blogs store0) 11 = Some (mk_blog 11 ''alice'' [''bob''] [''carol''] 10) \<and>
   views_of (snd (getOneBlog store0 (view_req None ''10.0.0.7'' 11))) 11 = Some 1 \<and>
   snd (getOneBlog (snd (getOneBlog store0 (view_req None ''10.0.0.7'' 11)))
          (view_req None ''10.0.0.7'' 11)) = snd (getOneBlog store0 (view_req None ''10.0.0.7'' 11)) \<and>
   views_of (snd (getOneBlog (snd (getOneBlog store0 (view_req None ''10.0.0.7'' 11)))
          (view_req (Some ''bob'') ''10.0.0.9'' 11))) 11 = Some 2"
proof -
  let ?r = "view_req None ''10.0.0.7'' 11"
  let ?r' = "view_req (Some ''bob'') ''10.0.0.9'' 11"
  let ?b = "mk_blog 11 ''alice'' [''bob''] [''carol''] 10"
  have f: "findById (Blogs store0) (param_id ?r) = Some ?b"
    by (simp add: ex_defs findById_def view_req_def)
  have p: "param_id ?r = 11" "param_id ?r' = param_id ?r" "param_id ?r = param_id ?r"
    by (simp_all add: view_req_def mk_req_def)
  have i: "userIdentifier ?r = ''10.0.0.7''" "userIdentifier ?r' = ''bob''"
    by (simp_all add: view_req_def mk_req_def userIdentifier_def)
  have v: "viewedBy ?b = []" "views ?b = 0" by (simp_all add: mk_blog_def)
  note a = getOneBlog_counts_viewer_once [OF f p(3)]
  note b = getOneBlog_counts_viewer_once [OF f p(2)]
  from a have 1: "views_of (snd (getOneBlog store0 ?r)) 11 = Some 1"
    by (simp add: views_of_def p i v)
  from a have 2: "snd (getOneBlog (snd (getOneBlog store0 ?r)) ?r) = snd (getOneBlog store0 ?r)"
    by (simp add: i v)
  from b have 3: "views_of (snd (getOneBlog (snd (getOneBlog store0 ?r)) ?r')) 11 = Some 2"
    by (simp add: views_of_def p i v)
  from f 1 2 3 show ?thesis by (simp add: p)
qed

text \<open>
  C2 as it is stated, for every post and every identifier, fails for a viewer who is
  already recorded: \<open>bob\<close> is in \<open>viewedBy\<close> of the post of \<open>store1\<close>, and his two
  calls leave \<open>views\<close> at 1.
\<close>

theorem getOneBlog_repeat_viewer_counterexample:
  "views_of store1 11 = Some 1 \<and>
   views_of (snd (getOneBlog (snd (getOneBlog store1 (view_req (Some ''bob'') ''10.0.0.7'' 11)))
                   (view_req (Some ''bob'') ''10.0.0.7'' 11))) 11 = Some 1"
  by (simp add: views_of_def store1_def ex_defs view_req_def getOneBlog_def findById_def
      userIdentifier_def)

section \<open>deleteBlog: the owner's post and its comments\<close>

lemma findOne_None_iff:
  "findOne bs i u = None \<longleftrightarrow> \<not> (\<exists>b\<in>set bs. blog_id b = i \<and> author b = u)"
  by (auto simp: findOne_def find_None_iff)

lemma findByIdAndDelete_distinct:
  "distinct (map blog_id bs) \<Longrightarrow> findByIdAndDelete i bs = filter (\<lambda>x. blog_id x \<noteq> i) bs"
proof (induction bs)
  case Nil
  then show ?case by simp
next
  case (Cons x xs)
  show ?case
  proof (cases "blog_id x = i")
    case True
    from Cons.prems have "blog_id x \<notin> blog_id ` set xs" by simp
    with True have "\<forall>y\<in>set xs. blog_id y \<noteq> i" by blast
    then have "filter (\<lambda>x. blog_id x \<noteq> i) xs = xs" by (simp add: filter_id_conv)
    with True show ?thesis by simp
  next
    case False
    with Cons show ?thesis by simp
  qed
qed

text \<open>
  C7. For a \<open>deleteBlog\<close> request of an authenticated user: when no stored post has
  both the id of the request and that user as author, the call fails with the 404
  error and the store is unchanged, so nothing is deleted. When there is such a post,
  the call succeeds, the post with the id is removed (with the ids of the stored posts
  distinct, as the database keeps them, exactly the posts with another id remain), the
  comments that remain are exactly those whose \<open>blog\<close> field is not the id, and the
  users are unchanged.
\<close>

theorem deleteBlog_owner_cascade:
  assumes "req_user req = Some u"
  shows "((\<not> (\<exists>b\<in>set (Blogs s). blog_id b = param_id req \<and> author b = u)) \<longrightarrow>
            deleteBlog s req = (Inl not_deletable, s)) \<and>
         ((\<exists>b\<in>set (Blogs s). blog_id b = param_id req \<and> author b = u) \<longrightarrow>
            fst (deleteBlog s req) = Inr () \<and>
            Blogs (snd (deleteBlog s req)) = findByIdAndDelete (param_id req) (Blogs s) \<and>
            Comments (snd (deleteBlog s req)) =
              filter (\<lambda>c. blog c \<noteq> param_id req) (Comments s) \<and>
            Users (snd (deleteBlog s req)) = Users s \<and>
            (distinct (map blog_id (Blogs s)) \<longrightarrow>
               Blogs (snd (deleteBlog s req)) =
                 filter (\<lambda>x. blog_id x \<noteq> param_id req) (Blogs s)))"
proof (intro conjI impI)
  assume "\<not> (\<exists>b\<in>set (Blogs s). blog_id b = param_id req \<and> author b = u)"
  then have "findOne (Blogs s) (param_id req) u = None" by (simp add: findOne_None_iff)
  with assms show "deleteBlog s req = (Inl not_deletable, s)" by (simp add: deleteBlog_def)
next
  assume "\<exists>b\<in>set (Blogs s). blog_id b = param_id req \<and> author b = u"
  then have "findOne (Blogs s) (param_id req) u \<noteq> None" by (simp add: findOne_None_iff)
  then obtain b where "findOne (Blogs s) (param_id req) u = Some b" by blast
  with assms have d: "deleteBlog s req =
      (Inr (), s\<lparr>Blogs := findByIdAndDelete (param_id req) (Blogs s),
                 Comments := deleteMany (param_id req) (Comments s)\<rparr>)"
    by (simp add: deleteBlog_def)
  show "fst (deleteBlog s req) = Inr ()" by (simp add: d)
  show b: "Blogs (snd (deleteBlog s req)) = findByIdAndDelete (param_id req) (Blogs s)"
    by (simp add: d)
  show "Comments (snd (deleteBlog s req)) = filter (\<lambda>c. blog c \<noteq> param_id req) (Comments s)"
    by (simp add: d deleteMany_def)
  show "Users (snd (deleteBlog s req)) = Users s" by (simp add: d)
  assume "distinct (map blog_id (Blogs s))"
  then show "Blogs (snd (deleteBlog s req)) = filter (\<lambda>x. blog_id x \<noteq> param_id req) (Blogs s)"
    by (simp add: b findByIdAndDelete_distinct)
qed

theorem deleteBlog_owner_cascade_witness:
  "req_user (mk_req (Some ''alice'') 11 no_body) = Some ''alice'' \<and>
   deleteBlog store0 (mk_req (Some ''bob'') 11 no_body) = (Inl not_deletable, store0) \<and>
   fst (deleteBlog store0 (mk_req (Some ''alice'') 11 no_body)) = Inr () \<and>
   Blogs (snd (deleteBlog store0 (mk_req (Some ''alice'') 11 no_body))) = [mk_blog 12 ''bob'' [] [] 20] \<and>
   Comments (snd (deleteBlog store0 (mk_req (Some ''alice'') 11 no_body))) =
     [\<lparr>comment_id = 2, comment = ''hm'', user = ''alice'', blog = 12\<rparr>]"
proof -
  have a: "req_user (mk_req (Some ''alice'') 11 no_body) = Some ''alice''"
    and b: "req_user (mk_req (Some ''bob'') 11 no_body) = Some ''bob''"
    by (simp_all add: mk_req_def)
  have p: "param_id (mk_req (Some ''alice'') 11 no_body) = 11"
    "param_id (mk_req (Some ''bob'') 11 no_body) = 11"
    by (simp_all add: mk_req_def)
  have bs: "Blogs store0 = [mk_blog 11 ''alice'' [''bob''] [''carol''] 10, mk_blog 12 ''bob'' [] [] 20]"
    and cs: "Comments store0 = [\<lparr>comment_id = 1, comment = ''nice'', user = ''bob'', blog = 11\<rparr>,
                         \<lparr>comment_id = 2, comment = ''hm'', user = ''alice'', blog = 12\<rparr>]"
    by (simp_all add: store0_def)
  have i: "blog_id (mk_blog 11 ''alice'' [''bob''] [''carol''] 10) = 11"
    "blog_id (mk_blog 12 ''bob'' [] [] 20) = 12"
    "author (mk_blog 11 ''alice'' [''bob''] [''carol''] 10) = ''alice''"
    "author (mk_blog 12 ''bob'' [] [] 20) = ''bob''"
    by (simp_all add: mk_blog_def)
  from deleteBlog_owner_cascade [OF b, of store0]
  have 1: "deleteBlog store0 (mk_req (Some ''bob'') 11 no_body) = (Inl not_deletable, store0)"
    by (simp add: p bs i)
  from deleteBlog_owner_cascade [OF a, of store0]
  have 2: "fst (deleteBlog store0 (mk_req (Some ''alice'') 11 no_body)) = Inr () \<and>
   Blogs (snd (deleteBlog store0 (mk_req (Some ''alice'') 11 no_body))) = [mk_blog 12 ''bob'' [] [] 20] \<and>
   Comments (snd (deleteBlog store0 (mk_req (Some ''alice'') 11 no_body))) =
     [\<lparr>comment_id = 2, comment = ''hm'', user = ''alice'', blog = 12\<rparr>]"
    by (simp add: p bs cs i)
  from a 1 2 show ?thesis by simp
qed

section \<open>getAuthorBlogs: the author's four most recent posts\<close>

lemma sort_desc_sorted: "sorted_wrt (\<lambda>x y. k y \<le> k x) (sort_desc k xs)"
proof -
  have "sorted (map (\<lambda>x. - k x) (sort_key (\<lambda>x. - k x) xs))" by (rule sorted_sort_key)
  then show ?thesis by (simp add: sort_desc_def sorted_map)
qed

lemma sort_desc_set: "set (sort_desc k xs) = set xs"
  by (simp add: sort_desc_def)

lemma sort_desc_length: "length (sort_desc k xs) = length xs"
  by (simp add: sort_desc_def)

lemma take_drop_sorted_wrt:
  assumes "sorted_wrt R xs" and "x \<in> set (take n xs)" and "y \<in> set (drop n xs)"
  shows "R x y"
proof -
  from assms(1) have "sorted_wrt R (take n xs @ drop n xs)" by simp
  with assms(2,3) show ?thesis unfolding sorted_wrt_append by blast
qed

lemma sort_desc_filter_length:
  "length (filter P (sort_desc k xs)) = length (filter P xs)"
proof -
  have "mset (filter P (sort_desc k xs)) = mset (filter P xs)"
    by (simp add: sort_desc_def)
  then show ?thesis by (rule mset_eq_length)
qed

lemma take_seed:
  fixes k :: "'a \<Rightarrow> int"
  assumes srt: "sorted_wrt (\<lambda>x y. k y \<le> k x) xs" and m: "b \<in> set xs"
    and few: "length (filter (\<lambda>x. k b \<le> k x) xs) \<le> n"
  shows "b \<in> set (take n xs)"
proof (rule ccontr)
  assume n: "b \<notin> set (take n xs)"
  from m have "b \<in> set (take n xs) \<union> set (drop n xs)"
    by (simp only: set_append [symmetric] append_take_drop_id)
  with n have d: "b \<in> set (drop n xs)" by blast
  then have "drop n xs \<noteq> []" by auto
  then have l: "length (take n xs) = n" by simp
  have "\<forall>x\<in>set (take n xs). k b \<le> k x"
  proof
    fix x assume "x \<in> set (take n xs)"
    with srt show "k b \<le> k x" using d by (rule take_drop_sorted_wrt)
  qed
  then have 1: "filter (\<lambda>x. k b \<le> k x) (take n xs) = take n xs" by (simp add: filter_id_conv)
  from d have "b \<in> set (filter (\<lambda>x. k b \<le> k x) (drop n xs))" by simp
  then have 2: "0 < length (filter (\<lambda>x. k b \<le> k x) (drop n xs))" by (simp only: length_pos_if_in_set)
  have "filter (\<lambda>x. k b \<le> k x) xs =
      filter (\<lambda>x. k b \<le> k x) (take n xs) @ filter (\<lambda>x. k b \<le> k x) (drop n xs)"
    by (simp only: filter_append [symmetric] append_take_drop_id)
  then have "length (filter (\<lambda>x. k b \<le> k x) xs) = n + length (filter (\<lambda>x. k b \<le> k x) (drop n xs))"
    by (simp only: 1 length_append l)
  with 2 few show False by simp
qed

text \<open>
  C8. When no stored post has the seed id, \<open>getAuthorBlogs\<close> fails with the 404 error
  \<^verbatim>\<open>Blog not found\<close>. When the seed post exists, it returns a list of stored posts of
  the seed post's author, each at most as often as it is stored, in descending order of
  creation time; the list has 4 posts, or all the author's posts when these are fewer,
  and none of the author's posts left out is more recent than a post returned. The seed
  post itself is in the list whenever it is among the 4 most recent, that is, whenever
  at most 4 of the author's posts, the seed included, are as recent as the seed or more
  recent; in particular when the author has at most 4 posts. The list is never empty
  then, since the seed post is one of its author's posts: the 404 of line 328 for an
  author without posts has no store that reaches it.
\<close>

theorem getAuthorBlogs_recent:
  "(findById (Blogs s) (param_id req) = None \<longrightarrow>
      getAuthorBlogs s req = Inl (ApiError ''Blog not found'' (Some 404))) \<and>
   (\<forall>b. findById (Blogs s) (param_id req) = Some b \<longrightarrow>
      (\<exists>bs. getAuthorBlogs s req = Inr bs \<and> bs \<noteq> [] \<and> length bs \<le> 4 \<and>
            length bs = min 4 (length (filter (\<lambda>x. author x = author b) (Blogs s))) \<and>
            sorted_wrt (\<lambda>x y. createdAt y \<le> createdAt x) bs \<and>
            mset bs \<subseteq># mset (filter (\<lambda>x. author x = author b) (Blogs s)) \<and>
            (\<forall>x\<in>set bs. x \<in> set (Blogs s) \<and> author x = author b) \<and>
            (\<forall>x\<in>set bs. \<forall>y\<in>set (Blogs s). author y = author b \<longrightarrow> y \<notin> set bs \<longrightarrow>
                createdAt y \<le> createdAt x) \<and>
            (\<forall>x\<in>set bs. \<forall>y\<in>#(mset (filter (\<lambda>x. author x = author b) (Blogs s)) - mset bs).
                createdAt y \<le> createdAt x) \<and>
            (length (filter (\<lambda>x. author x = author b) (Blogs s)) \<le> 4 \<longrightarrow> b \<in> set bs) \<and>
            (length (filter (\<lambda>x. author x = author b \<and> createdAt b \<le> createdAt x) (Blogs s)) \<le> 4
               \<longrightarrow> b \<in> set bs)))"
proof (intro conjI allI impI)
  assume "findById (Blogs s) (param_id req) = None"
  then show "getAuthorBlogs s req = Inl (ApiError ''Blog not found'' (Some 404))"
    by (simp add: getAuthorBlogs_def)
next
  fix b
  assume f: "findById (Blogs s) (param_id req) = Some b"
  let ?own = "filter (\<lambda>x. author x = author b) (Blogs s)"
  let ?ranked = "sort_desc createdAt ?own"
  let ?bs = "take 4 ?ranked"
  from f have m: "b \<in> set ?own" by (simp add: findById_mem)
  then have mr: "b \<in> set ?ranked" by (simp only: sort_desc_set)
  then have "?ranked \<noteq> []" by auto
  then have ne: "?bs \<noteq> []" by simp
  with f have r: "getAuthorBlogs s req = Inr ?bs" by (simp add: getAuthorBlogs_def Let_def)
  have srt: "sorted_wrt (\<lambda>x y. createdAt y \<le> createdAt x) ?ranked" by (rule sort_desc_sorted)
  have len: "length ?bs = min 4 (length ?own)" by (simp add: sort_desc_length min.commute)
  have ms: "mset ?ranked = mset ?own" by (simp add: sort_desc_def)
  have split: "mset ?own = mset ?bs + mset (drop 4 ?ranked)"
    by (simp only: ms [symmetric] mset_append [symmetric] append_take_drop_id)
  have subm: "mset ?bs \<subseteq># mset ?own" by (simp only: split mset_subset_eq_add_left)
  have rest: "mset ?own - mset ?bs = mset (drop 4 ?ranked)" by (simp only: split add_diff_cancel_left')
  have sub: "\<forall>x\<in>set ?bs. x \<in> set (Blogs s) \<and> author x = author b"
  proof
    fix x assume "x \<in> set ?bs"
    then have "x \<in> set ?ranked" by (rule in_set_takeD)
    then show "x \<in> set (Blogs s) \<and> author x = author b" by (simp add: sort_desc_set)
  qed
  have recent: "\<forall>x\<in>set ?bs. \<forall>y\<in>set (Blogs s). author y = author b \<longrightarrow> y \<notin> set ?bs \<longrightarrow>
                createdAt y \<le> createdAt x"
  proof (intro ballI impI)
    fix x y
    assume x: "x \<in> set ?bs" and y: "y \<in> set (Blogs s)" "author y = author b" "y \<notin> set ?bs"
    from y have "y \<in> set ?ranked" by (simp add: sort_desc_set)
    then have "y \<in> set (take 4 ?ranked) \<union> set (drop 4 ?ranked)"
      by (simp only: set_append [symmetric] append_take_drop_id)
    with y(3) have "y \<in> set (drop 4 ?ranked)" by blast
    with srt x show "createdAt y \<le> createdAt x" by (rule take_drop_sorted_wrt)
  qed
  have recentm: "\<forall>x\<in>set ?bs. \<forall>y\<in>#(mset ?own - mset ?bs). createdAt y \<le> createdAt x"
  proof (intro ballI)
    fix x y
    assume x: "x \<in> set ?bs" and "y \<in># mset ?own - mset ?bs"
    then have "y \<in> set (drop 4 ?ranked)" by (simp only: rest set_mset_mset)
    with srt x show "createdAt y \<le> createdAt x" by (rule take_drop_sorted_wrt)
  qed
  have all: "length ?own \<le> 4 \<longrightarrow> b \<in> set ?bs"
  proof
    assume "length ?own \<le> 4"
    then have "?bs = ?ranked" by (simp add: sort_desc_length)
    with m show "b \<in> set ?bs" by (simp add: sort_desc_set)
  qed
  have seed: "length (filter (\<lambda>x. author x = author b \<and> createdAt b \<le> createdAt x) (Blogs s)) \<le> 4
               \<longrightarrow> b \<in> set ?bs"
  proof
    assume "length (filter (\<lambda>x. author x = author b \<and> createdAt b \<le> createdAt x) (Blogs s)) \<le> 4"
    then have "length (filter (\<lambda>x. createdAt b \<le> createdAt x) ?own) \<le> 4"
      by (simp only: filter_filter conj_commute)
    then have "length (filter (\<lambda>x. createdAt b \<le> createdAt x) ?ranked) \<le> 4"
      by (simp only: sort_desc_filter_length)
    with srt mr show "b \<in> set ?bs" by (rule take_seed)
  qed
  show "\<exists>bs. getAuthorBlogs s req = Inr bs \<and> bs \<noteq> [] \<and> length bs \<le> 4 \<and>
            length bs = min 4 (length (filter (\<lambda>x. author x = author b) (Blogs s))) \<and>
            sorted_wrt (\<lambda>x y. createdAt y \<le> createdAt x) bs \<and>
            mset bs \<subseteq># mset (filter (\<lambda>x. author x = author b) (Blogs s)) \<and>
            (\<forall>x\<in>set bs. x \<in> set (Blogs s) \<and> author x = author b) \<and>
            (\<forall>x\<in>set bs. \<forall>y\<in>set (Blogs s). author y = author b \<longrightarrow> y \<notin> set bs \<longrightarrow>
                createdAt y \<le> createdAt x) \<and>
            (\<forall>x\<in>set bs. \<forall>y\<in>#(mset (filter (\<lambda>x. author x = author b) (Blogs s)) - mset bs).
                createdAt y \<le> createdAt x) \<and>
            (length (filter (\<lambda>x. author x = author b) (Blogs s)) \<le> 4 \<longrightarrow> b \<in> set bs) \<and>
            (length (filter (\<lambda>x. author x = author b \<and> createdAt b \<le> createdAt x) (Blogs s)) \<le> 4
               \<longrightarrow> b \<in> set bs)"
  proof (intro exI [of _ ?bs] conjI)
    show "getAuthorBlogs s req = Inr ?bs" by (rule r)
    show "?bs \<noteq> []" by (rule ne)
    show "length ?bs \<le> 4" by simp
    show "length ?bs = min 4 (length ?own)" by (rule len)
    show "sorted_wrt (\<lambda>x y. createdAt y \<le> createdAt x) ?bs" using srt by (rule sorted_wrt_take)
    show "mset ?bs \<subseteq># mset ?own" by (rule subm)
    show "\<forall>x\<in>set ?bs. x \<in> set (Blogs s) \<and> author x = author b" by (rule sub)
    show "\<forall>x\<in>set ?bs. \<forall>y\<in>set (Blogs s). author y = author b \<longrightarrow> y \<notin> set ?bs \<longrightarrow>
                createdAt y \<le> createdAt x" by (rule recent)
    show "\<forall>x\<in>set ?bs. \<forall>y\<in>#(mset ?own - mset ?bs). createdAt y \<le> createdAt x" by (rule recentm)
    show "length ?own \<le> 4 \<longrightarrow> b \<in> set ?bs" by (rule all)
    show "length (filter (\<lambda>x. author x = author b \<and> createdAt b \<le> createdAt x) (Blogs s)) \<le> 4
               \<longrightarrow> b \<in> set ?bs" by (rule seed)
  qed
qed

theorem getAuthorBlogs_recent_witness:
  "findById (Blogs store2) 7 = None \<and>
   getAuthorBlogs store2 (mk_req None 7 no_body) = Inl (ApiError ''Blog not found'' (Some 404)) \<and>
   findById (Blogs store2) 101 = Some (mk_blog 101 ''alice'' (fans 3) [] 1) \<and>
   getAuthorBlogs store2 (mk_req None 101 no_body) =
     Inr [mk_blog 111 ''alice'' (fans 10) [] 11, mk_blog 109 ''alice'' (fans 8) [] 9,
          mk_blog 107 ''alice'' (fans 11) [] 7, mk_blog 105 ''alice'' (fans 0) [] 5] \<and>
   (\<exists>bs. getAuthorBlogs store2 (mk_req None 101 no_body) = Inr bs \<and> bs \<noteq> [] \<and> length bs \<le> 4 \<and>
         sorted_wrt (\<lambda>x y. createdAt y \<le> createdAt x) bs) \<and>
   findById (Blogs store2) 109 = Some (mk_blog 109 ''alice'' (fans 8) [] 9) \<and>
   length (filter (\<lambda>x. author x = author (mk_blog 109 ''alice'' (fans 8) [] 9) \<and>
                       createdAt (mk_blog 109 ''alice'' (fans 8) [] 9) \<le> createdAt x)
             (Blogs store2)) = 2 \<and>
   (\<exists>bs. getAuthorBlogs store2 (mk_req None 109 no_body) = Inr bs \<and> length bs = 4 \<and>
         mk_blog 109 ''alice'' (fans 8) [] 9 \<in> set bs)"
proof -
  have p: "param_id (mk_req None 7 no_body) = 7" "param_id (mk_req None 101 no_body) = 101"
    "param_id (mk_req None 109 no_body) = 109"
    by (simp_all add: mk_req_def)
  have n: "findById (Blogs store2) 7 = None"
    by (simp add: store2_def findById_def mk_blog_def)
  have f: "findById (Blogs store2) 101 = Some (mk_blog 101 ''alice'' (fans 3) [] 1)"
    by (simp add: store2_def findById_def mk_blog_def)
  have g: "findById (Blogs store2) 109 = Some (mk_blog 109 ''alice'' (fans 8) [] 9)"
    by (simp add: store2_def findById_def mk_blog_def)
  have v: "getAuthorBlogs store2 (mk_req None 101 no_body) =
     Inr [mk_blog 111 ''alice'' (fans 10) [] 11, mk_blog 109 ''alice'' (fans 8) [] 9,
          mk_blog 107 ''alice'' (fans 11) [] 7, mk_blog 105 ''alice'' (fans 0) [] 5]"
    by (simp add: getAuthorBlogs_def store2_def mk_req_def findById_def sort_desc_def mk_blog_def)
  have c: "length (filter (\<lambda>x. author x = author (mk_blog 109 ''alice'' (fans 8) [] 9) \<and>
                       createdAt (mk_blog 109 ''alice'' (fans 8) [] 9) \<le> createdAt x)
             (Blogs store2)) = 2"
    by (simp add: store2_def mk_blog_def)
  have o: "length (filter (\<lambda>x. author x = author (mk_blog 109 ''alice'' (fans 8) [] 9))
             (Blogs store2)) = 6"
    by (simp add: store2_def mk_blog_def)
  from getAuthorBlogs_recent [of store2 "mk_req None 7 no_body"] n
  have 1: "getAuthorBlogs store2 (mk_req None 7 no_body) = Inl (ApiError ''Blog not found'' (Some 404))"
    by (simp add: p)
  from getAuthorBlogs_recent [of store2 "mk_req None 101 no_body"] f
  have 2: "\<exists>bs. getAuthorBlogs store2 (mk_req None 101 no_body) = Inr bs \<and> bs \<noteq> [] \<and> length bs \<le> 4 \<and>
         sorted_wrt (\<lambda>x y. createdAt y \<le> createdAt x) bs"
    by (simp only: p) blast
  have g': "findById (Blogs store2) (param_id (mk_req None 109 no_body)) =
      Some (mk_blog 109 ''alice'' (fans 8) [] 9)"
    by (simp only: p g)
  from getAuthorBlogs_recent [of store2 "mk_req None 109 no_body", THEN conjunct2, rule_format, OF g']
  obtain bs where b: "getAuthorBlogs store2 (mk_req None 109 no_body) = Inr bs"
    "length bs = min 4 (length (filter (\<lambda>x. author x = author (mk_blog 109 ''alice'' (fans 8) [] 9))
             (Blogs store2)))"
    "length (filter (\<lambda>x. author x = author (mk_blog 109 ''alice'' (fans 8) [] 9) \<and>
                       createdAt (mk_blog 109 ''alice'' (fans 8) [] 9) \<le> createdAt x)
             (Blogs store2)) \<le> 4 \<longrightarrow> mk_blog 109 ''alice'' (fans 8) [] 9 \<in> set bs"
    by blast
  from b(2) have "length bs = 4" by (simp add: o)
  moreover from b(3) have "mk_blog 109 ''alice'' (fans 8) [] 9 \<in> set bs" by (simp add: c)
  ultimately have 3: "\<exists>bs. getAuthorBlogs store2 (mk_req None 109 no_body) = Inr bs \<and> length bs = 4 \<and>
         mk_blog 109 ''alice'' (fans 8) [] 9 \<in> set bs"
    using b(1) by blast
  show ?thesis by (intro conjI) (rule n 1 f v 2 g c 3)+
qed

section \<open>createBlog: a failed cover-image upload\<close>

lemma foldr_max_ge: "x \<in> set xs \<Longrightarrow> x \<le> foldr max xs (0::nat)"
  by (induction xs) (auto simp: max_def)

lemma fresh_id_greater: "b \<in> set bs \<Longrightarrow> blog_id b < fresh_id bs"
proof -
  assume "b \<in> set bs"
  then have "blog_id b \<in> set (map blog_id bs)" by simp
  then have "blog_id b \<le> foldr max (map blog_id bs) 0" by (rule foldr_max_ge)
  then show ?thesis by (simp add: fresh_id_def)
qed

lemma fresh_id_new: "b \<in> set bs \<Longrightarrow> blog_id b \<noteq> fresh_id bs"
  using fresh_id_greater [of b bs] by simp

lemma findByIdAndDelete_last:
  "(\<And>x. x \<in> set bs \<Longrightarrow> blog_id x \<noteq> blog_id b) \<Longrightarrow> findByIdAndDelete (blog_id b) (bs @ [b]) = bs"
  by (induction bs) auto

lemma new_blog_id: "blog_id (new_blog i t bd) = i"
  by (simp add: new_blog_def)

text \<open>
  C4. A \<open>createBlog\<close> request of an authenticated user, with a body that the validators
  accept and a cover-image file whose upload fails, ends in the error
  \<^verbatim>\<open>Error uploading cover image to Cloudinary\<close> with status 500, and the store afterwards
  is the store before: the post created at line 134 has been deleted again.
\<close>

theorem createBlog_cover_upload_fails:
  assumes "req_user req = Some u"
    and "create_valid e ((req_body req)\<lparr>b_author := Some u\<rparr>)"
    and "req_file req = Some f"
    and "uploadFileToCloudinary e f = None"
  shows "createBlog e s req =
           (Inl (ApiError ''Error uploading cover image to Cloudinary'' (Some 500)), s)"
proof -
  let ?b0 = "new_blog (fresh_id (Blogs s)) (clock e) ((req_body req)\<lparr>b_author := Some u\<rparr>)"
  have "\<And>x. x \<in> set (Blogs s) \<Longrightarrow> blog_id x \<noteq> blog_id ?b0"
    by (simp add: new_blog_id fresh_id_new)
  then have "findByIdAndDelete (blog_id ?b0) (Blogs s @ [?b0]) = Blogs s"
    by (rule findByIdAndDelete_last)
  with assms show ?thesis by (simp add: createBlog_def Let_def)
qed

theorem createBlog_cover_upload_fails_witness:
  "req_user (upload_req ''bob'' 0 (Some ''broken.png'') []) = Some ''bob'' \<and>
   create_valid env0 ((req_body (upload_req ''bob'' 0 (Some ''broken.png'') []))\<lparr>b_author := Some ''bob''\<rparr>) \<and>
   req_file (upload_req ''bob'' 0 (Some ''broken.png'') []) = Some \<lparr>originalname = ''broken.png''\<rparr> \<and>
   uploadFileToCloudinary env0 \<lparr>originalname = ''broken.png''\<rparr> = None \<and>
   createBlog env0 store0 (upload_req ''bob'' 0 (Some ''broken.png'') []) =
     (Inl (ApiError ''Error uploading cover image to Cloudinary'' (Some 500)), store0)"
proof -
  have 1: "req_user (upload_req ''bob'' 0 (Some ''broken.png'') []) = Some ''bob''"
    by (simp add: upload_req_def mk_req_def)
  have 2: "create_valid env0 ((req_body (upload_req ''bob'' 0 (Some ''broken.png'') []))\<lparr>b_author := Some ''bob''\<rparr>)"
    by (simp add: env0_def)
  have 3: "req_file (upload_req ''bob'' 0 (Some ''broken.png'') []) = Some \<lparr>originalname = ''broken.png''\<rparr>"
    by (simp add: upload_req_def mk_req_def)
  have 4: "uploadFileToCloudinary env0 \<lparr>originalname = ''broken.png''\<rparr> = None"
    by (simp add: env0_def)
  from 1 2 3 4 createBlog_cover_upload_fails [OF 1 2 3 4, of store0] show ?thesis by simp
qed

section \<open>updateBlog: a request that matches no post of the user\<close>

lemma cover_payload_cases:
  "cover_payload e found req = Inl err \<Longrightarrow> err = upload_error"
  by (auto simp: cover_payload_def split: option.splits if_splits)

text \<open>
  C1, as the code has it. Take an \<open>updateBlog\<close> request of an authenticated user that
  carries no gallery files, such that no stored post has both the id of the request and
  that user as author. Then the store afterwards is the store before, and the call
  fails, with the 404 error, with the upload error of status 500 or with a validation
  error. It fails with the 404 error when there is no cover-image file and the
  validators accept the payload. With a cover-image file, when the id is that of a
  stored post (of another author), it fails with the upload error of status 500 if the
  deletion of the old cover image or the upload of the new one fails, and otherwise,
  with a payload that the validators accept, with the 404 error.
\<close>

theorem updateBlog_unmatched:
  assumes "req_user req = Some u"
    and "\<not> (\<exists>b\<in>set (Blogs s). blog_id b = param_id req \<and> author b = u)"
    and "req_files req = []"
  shows "snd (updateBlog e s req) = s \<and>
         (fst (updateBlog e s req) = Inl not_authorized \<or>
          fst (updateBlog e s req) = Inl upload_error \<or>
          fst (updateBlog e s req) = Inl (Thrown ValidationError)) \<and>
         (req_file req = None \<longrightarrow> update_valid e (req_body req) \<longrightarrow>
            updateBlog e s req = (Inl not_authorized, s)) \<and>
         (\<forall>f b. req_file req = Some f \<longrightarrow> findById (Blogs s) (param_id req) = Some b \<longrightarrow>
            ((old_cover_stays e b \<or> uploadFileToCloudinary e f = None) \<longrightarrow>
               updateBlog e s req = (Inl upload_error, s)) \<and>
            (\<forall>r. \<not> old_cover_stays e b \<longrightarrow> uploadFileToCloudinary e f = Some r \<longrightarrow>
               update_valid e ((req_body req)\<lparr>b_coverImage :=
                                 Some \<lparr>public_id = public_id r, url = url r\<rparr>\<rparr>) \<longrightarrow>
               updateBlog e s req = (Inl not_authorized, s)))"
proof -
  from assms(2) have n: "findOne (Blogs s) (param_id req) u = None"
    by (simp add: findOne_None_iff)
  have g: "gallery_append e (findById (Blogs s) (param_id req)) req s = Inr s"
    using assms(3) by (simp add: gallery_append_def)
  have total: "snd (updateBlog e s req) = s \<and>
         (fst (updateBlog e s req) = Inl not_authorized \<or>
          fst (updateBlog e s req) = Inl upload_error \<or>
          fst (updateBlog e s req) = Inl (Thrown ValidationError))"
  proof (cases "cover_payload e (findById (Blogs s) (param_id req)) req")
    case (Inl err)
    then have "err = upload_error" by (rule cover_payload_cases)
    with Inl assms(1) show ?thesis by (simp add: updateBlog_def)
  next
    case (Inr bd)
    with assms(1) n g show ?thesis by (simp add: updateBlog_def)
  qed
  show ?thesis
  proof (intro conjI allI impI)
    show "snd (updateBlog e s req) = s" using total by (rule conjunct1)
    show "fst (updateBlog e s req) = Inl not_authorized \<or>
          fst (updateBlog e s req) = Inl upload_error \<or>
          fst (updateBlog e s req) = Inl (Thrown ValidationError)" using total by (rule conjunct2)
  next
    assume "req_file req = None" "update_valid e (req_body req)"
    then show "updateBlog e s req = (Inl not_authorized, s)"
      using assms(1) n g by (simp add: updateBlog_def cover_payload_def)
  next
    fix f b
    assume "req_file req = Some f" "findById (Blogs s) (param_id req) = Some b"
      "old_cover_stays e b \<or> uploadFileToCloudinary e f = None"
    then have "cover_payload e (findById (Blogs s) (param_id req)) req = Inl upload_error"
      by (auto simp: cover_payload_def)
    then show "updateBlog e s req = (Inl upload_error, s)"
      using assms(1) by (simp add: updateBlog_def)
  next
    fix f b r
    assume "req_file req = Some f" "findById (Blogs s) (param_id req) = Some b"
      "\<not> old_cover_stays e b" "uploadFileToCloudinary e f = Some r"
      and v: "update_valid e ((req_body req)\<lparr>b_coverImage :=
                                 Some \<lparr>public_id = public_id r, url = url r\<rparr>\<rparr>)"
    then have "cover_payload e (findById (Blogs s) (param_id req)) req =
        Inr ((req_body req)\<lparr>b_coverImage := Some \<lparr>public_id = public_id r, url = url r\<rparr>\<rparr>)"
      by (simp add: cover_payload_def)
    then show "updateBlog e s req = (Inl not_authorized, s)"
      using assms(1) n g v by (simp add: updateBlog_def)
  qed
qed

theorem updateBlog_unmatched_witness:
  "req_user (upload_req ''bob'' 11 None []) = Some ''bob'' \<and>
   author (mk_blog 11 ''alice'' [''bob''] [''carol''] 10) = ''alice'' \<and>
   updateBlog env0 store0 (upload_req ''bob'' 11 None []) = (Inl not_authorized, store0) \<and>
   updateBlog env0 store0 (upload_req ''bob'' 11 (Some ''broken.png'') []) =
     (Inl upload_error, store0) \<and>
   updateBlog env0 store0 (upload_req ''bob'' 11 (Some ''ok.png'') []) =
     (Inl not_authorized, store0) \<and>
   findById (Blogs store0) 77 = None \<and>
   snd (updateBlog env0 store0 (upload_req ''bob'' 77 (Some ''ok.png'') [])) = store0"
proof -
  let ?b = "mk_blog 11 ''alice'' [''bob''] [''carol''] 10"
  have u: "\<And>c. req_user (upload_req ''bob'' 11 c []) = Some ''bob''"
    and p: "\<And>c. param_id (upload_req ''bob'' 11 c []) = 11"
    and g: "\<And>c. req_files (upload_req ''bob'' 11 c []) = []"
    and c: "\<And>c. req_file (upload_req ''bob'' 11 c []) = map_option (\<lambda>n. \<lparr>originalname = n\<rparr>) c"
    by (simp_all add: upload_req_def mk_req_def)
  have n: "\<And>c. \<not> (\<exists>b\<in>set (Blogs store0).
      blog_id b = param_id (upload_req ''bob'' 11 c []) \<and> author b = ''bob'')"
    by (simp add: p store0_def mk_blog_def)
  have f: "\<And>c. findById (Blogs store0) (param_id (upload_req ''bob'' 11 c [])) = Some ?b"
    by (simp add: p store0_def mk_blog_def findById_def)
  have o: "\<not> old_cover_stays env0 ?b" by (simp add: old_cover_stays_def mk_blog_def)
  have v: "\<And>bd. update_valid env0 bd" by (simp add: env0_def)
  have k: "uploadFileToCloudinary env0 \<lparr>originalname = ''broken.png''\<rparr> = None"
    "uploadFileToCloudinary env0 \<lparr>originalname = ''ok.png''\<rparr> =
       Some \<lparr>public_id = ''ok.png'', url = ''https://media/ok.png''\<rparr>"
    by (simp_all add: env0_def)
  have 1: "updateBlog env0 store0 (upload_req ''bob'' 11 None []) = (Inl not_authorized, store0)"
    using updateBlog_unmatched [OF u [of None] n [of None] g [of None], where e = env0] v by (simp add: c)
  have 2: "updateBlog env0 store0 (upload_req ''bob'' 11 (Some ''broken.png'') []) =
     (Inl upload_error, store0)"
    using updateBlog_unmatched [OF u [of "Some ''broken.png''"] n [of "Some ''broken.png''"] g [of "Some ''broken.png''"], where e = env0] f k(1) by (simp add: c)
  have 3: "updateBlog env0 store0 (upload_req ''bob'' 11 (Some ''ok.png'') []) =
     (Inl not_authorized, store0)"
    using updateBlog_unmatched [OF u [of "Some ''ok.png''"] n [of "Some ''ok.png''"] g [of "Some ''ok.png''"], where e = env0] f k(2) o v by (simp add: c)
  have u7: "req_user (upload_req ''bob'' 77 (Some ''ok.png'') []) = Some ''bob''"
    and g7: "req_files (upload_req ''bob'' 77 (Some ''ok.png'') []) = []"
    and p7: "param_id (upload_req ''bob'' 77 (Some ''ok.png'') []) = 77"
    by (simp_all add: upload_req_def mk_req_def)
  have n7: "\<not> (\<exists>b\<in>set (Blogs store0).
      blog_id b = param_id (upload_req ''bob'' 77 (Some ''ok.png'') []) \<and> author b = ''bob'')"
    by (simp add: p7 store0_def mk_blog_def)
  have f7: "findById (Blogs store0) 77 = None"
    by (simp add: store0_def mk_blog_def findById_def)
  have 4: "snd (updateBlog env0 store0 (upload_req ''bob'' 77 (Some ''ok.png'') [])) = store0"
    using updateBlog_unmatched [OF u7 n7 g7, where e = env0] by (rule conjunct1)
  have a: "author (mk_blog 11 ''alice'' [''bob''] [''carol''] 10) = ''alice''"
    by (simp add: mk_blog_def)
  show ?thesis by (intro conjI) (rule u a 1 2 3 f7 4)+
qed

text \<open>
  C1 as it is stated fails in two ways. In \<open>store0\<close> the post 11 is \<open>alice\<close>'s. When
  \<open>bob\<close> sends a gallery file for it, the call fails with the 404 error, but the
  uploaded image has been appended to the \<open>images\<close> of the post before the author is
  checked. When \<open>bob\<close> sends a cover-image file whose upload fails, the call fails with
  status 500, not 404.
\<close>

theorem updateBlog_unmatched_counterexample:
  "findById (Blogs store0) 11 = Some (mk_blog 11 ''alice'' [''bob''] [''carol''] 10) \<and>
   updateBlog env0 store0 (upload_req ''bob'' 11 None [''pic.png'']) =
     (Inl (ApiError
        ''No comment found with this id or you are not authorized to update this comment''
        (Some 404)),
      store0\<lparr>Blogs := [(mk_blog 11 ''alice'' [''bob''] [''carol''] 10)
                          \<lparr>images := [\<lparr>public_id = ''pic.png'', url = ''https://media/pic.png''\<rparr>]\<rparr>,
                        mk_blog 12 ''bob'' [] [] 20]\<rparr>) \<and>
   snd (updateBlog env0 store0 (upload_req ''bob'' 11 None [''pic.png''])) \<noteq> store0 \<and>
   updateBlog env0 store0 (upload_req ''bob'' 11 (Some ''broken.png'') []) =
     (Inl (ApiError ''Error uploading image to Cloudinary'' (Some 500)), store0)"
  by (simp add: updateBlog_def cover_payload_def gallery_append_def successfulUploads_def
      List.map_filter_def findById_def findOne_def upload_error_def not_authorized_def
      upload_req_def ex_defs)

section \<open>getAllBlog: the tag filter\<close>

lemma post_lookup_unwind: "v \<in> set (lookup_unwind us bs) \<Longrightarrow> post v \<in> set bs"
  by (auto simp: lookup_unwind_def)

lemma post_populate: "post (populate us b) = b"
  by (simp add: populate_def)

lemma sort_documents_set: "set (sort_documents sq bs) = set bs"
  by (cases sq) (simp_all add: sort_documents_def sort_desc_set)

lemma aggregate_posts:
  "aggregate us matched k l = Inr found \<Longrightarrow> v \<in> set found \<Longrightarrow> post v \<in> set matched"
proof -
  assume a: "aggregate us matched k l = Inr found" and v: "v \<in> set found"
  from a have "found = lookup_unwind us (take (nat l) (drop (nat k) (sort_desc likesCountOf matched)))"
    by (simp add: aggregate_def split: if_splits)
  with v have "post v \<in> set (take (nat l) (drop (nat k) (sort_desc likesCountOf matched)))"
    by (simp add: post_lookup_unwind)
  then have "post v \<in> set (sort_desc likesCountOf matched)"
    by (blast dest: in_set_takeD in_set_dropD)
  then show ?thesis by (simp add: sort_desc_set)
qed

lemma find_page_posts:
  "find_page us matched sq k l = Inr found \<Longrightarrow> v \<in> set found \<Longrightarrow> post v \<in> set matched"
proof -
  assume a: "find_page us matched sq k l = Inr found" and v: "v \<in> set found"
  from a have "found = map (populate us) (take (nat \<bar>l\<bar>) (drop (nat k) (sort_documents sq matched)))"
    by (simp add: find_page_def split: if_splits)
  with v have "post v \<in> set (take (nat \<bar>l\<bar>) (drop (nat k) (sort_documents sq matched)))"
    by (auto simp: post_populate)
  then have "post v \<in> set (sort_documents sq matched)"
    by (blast dest: in_set_takeD in_set_dropD)
  then show ?thesis by (simp add: sort_documents_set)
qed

lemma getAllBlog_posts:
  assumes "getAllBlog e s q = Inr found" and "v \<in> set found"
    and "tagArray e (q_tags q) = Inr tf"
  shows "\<exists>rf. post v \<in> set (filter (matches \<lparr>fq_tags = tf, fq_title = rf\<rparr>) (Blogs s))"
proof (cases "titleRegex e (q_title q)")
  case (Inl err)
  with assms show ?thesis by (simp add: getAllBlog_def)
next
  case (Inr rf)
  let ?m = "filter (matches \<lparr>fq_tags = tf, fq_title = rf\<rparr>) (Blogs s)"
  show ?thesis
  proof (cases "q_sortBy q = Some ''mostLiked''")
    case True
    with assms Inr have "aggregate (Users s) ?m (startIndex q) (limitation q) = Inr found"
      by (simp add: getAllBlog_def Let_def split: sum.splits if_splits)
    with assms(2) have "post v \<in> set ?m" by (rule aggregate_posts [rotated])
    then show ?thesis by blast
  next
    case False
    with assms Inr have "find_page (Users s) ?m (sortQuery (q_sortBy q)) (startIndex q) (limitation q)
        = Inr found"
      by (simp add: getAllBlog_def Let_def split: sum.splits if_splits)
    with assms(2) have "post v \<in> set ?m" by (rule find_page_posts [rotated])
    then show ?thesis by blast
  qed
qed

text \<open>
  C6. Take a \<open>getAllBlog\<close> request with a non-empty \<open>tags\<close> parameter. When one of its
  comma-separated members is not in the tag table, the call fails with the error
  \<^verbatim>\<open>Invalid tags\<close>, whatever the stored collections and the other parameters are: the
  handler returns at line 21, before it builds or sends a query. When all members are
  in the table, every post of a successful result is a stored post that has at least
  one of the given tags.
\<close>

theorem getAllBlog_tags:
  assumes "q_tags q = Some ts" and "ts \<noteq> []"
  shows "((\<exists>t\<in>set (split_comma ts). t \<notin> set (BLOG_TAGS e)) \<longrightarrow>
            getAllBlog e s q = Inl (ApiError ''Invalid tags'' None)) \<and>
         ((\<forall>t\<in>set (split_comma ts). t \<in> set (BLOG_TAGS e)) \<longrightarrow>
            (\<forall>found. getAllBlog e s q = Inr found \<longrightarrow>
               (\<forall>v\<in>set found. post v \<in> set (Blogs s) \<and>
                                (\<exists>t\<in>set (tags (post v)). t \<in> set (split_comma ts)))))"
proof (intro conjI impI allI ballI)
  assume "\<exists>t\<in>set (split_comma ts). t \<notin> set (BLOG_TAGS e)"
  then have "\<not> list_all (\<lambda>tag. tag \<in> set (BLOG_TAGS e)) (split_comma ts)"
    by (simp add: list_all_iff)
  with assms have "tagArray e (q_tags q) = Inl (ApiError ''Invalid tags'' None)"
    by (simp add: tagArray_def)
  then show "getAllBlog e s q = Inl (ApiError ''Invalid tags'' None)"
    by (simp add: getAllBlog_def)
next
  fix found v
  assume ok: "\<forall>t\<in>set (split_comma ts). t \<in> set (BLOG_TAGS e)"
    and r: "getAllBlog e s q = Inr found" and v: "v \<in> set found"
  from ok assms have "tagArray e (q_tags q) = Inr (Some (split_comma ts))"
    by (simp add: tagArray_def list_all_iff)
  with r v obtain rf where
    m: "post v \<in> set (filter (matches \<lparr>fq_tags = Some (split_comma ts), fq_title = rf\<rparr>) (Blogs s))"
    using getAllBlog_posts by blast
  then show "post v \<in> set (Blogs s)" by simp
  from m have "list_ex (\<lambda>t. t \<in> set (split_comma ts)) (tags (post v))"
    by (simp add: matches_def)
  then show "\<exists>t\<in>set (tags (post v)). t \<in> set (split_comma ts)"
    by (simp add: list_ex_iff)
qed

theorem getAllBlog_tags_witness:
  "q_tags (tag_query ''tech,cooking'') = Some ''tech,cooking'' \<and>
   split_comma ''tech,cooking'' = [''tech'', ''cooking''] \<and>
   getAllBlog env0 store3 (tag_query ''tech,cooking'') = Inl (ApiError ''Invalid tags'' None) \<and>
   split_comma ''tech,life'' = [''tech'', ''life''] \<and>
   getAllBlog env0 store3 (tag_query ''tech,life'') =
     Inr [populate (Users store3) (mk_blog 11 ''alice'' [''bob''] [''carol''] 10)] \<and>
   (\<exists>t\<in>set (tags (mk_blog 11 ''alice'' [''bob''] [''carol''] 10)). t \<in> set (split_comma ''tech,life''))"
proof -
  let ?v = "populate (Users store3) (mk_blog 11 ''alice'' [''bob''] [''carol''] 10)"
  have q: "\<And>ts. q_tags (tag_query ts) = Some ts" by (simp add: tag_query_def)
  have s1: "split_comma ''tech,cooking'' = [''tech'', ''cooking'']"
    and s2: "split_comma ''tech,life'' = [''tech'', ''life'']" by simp_all
  have t: "BLOG_TAGS env0 = [''tech'', ''life'', ''travel'']" by (simp add: env0_def)
  have r: "getAllBlog env0 store3 (tag_query ''tech,life'') = Inr [?v]"
    by (simp add: getAllBlog_def tagArray_def titleRegex_def tag_query_def t matches_def
        find_page_def sortQuery_def sort_documents_def sort_desc_def startIndex_def
        pagination_def limitation_def parseInt_def or_default_def store3_def store0_def
        mk_blog_def)
  have 1: "getAllBlog env0 store3 (tag_query ''tech,cooking'') = Inl (ApiError ''Invalid tags'' None)"
    using getAllBlog_tags [OF q, of "''tech,cooking''" env0 store3] by (simp add: s1 t)
  have "\<forall>v\<in>set [?v]. post v \<in> set (Blogs store3) \<and>
                                (\<exists>t\<in>set (tags (post v)). t \<in> set (split_comma ''tech,life''))"
    using getAllBlog_tags [OF q, of "''tech,life''" env0 store3] r by (simp add: s2 t)
  then have 2: "\<exists>t\<in>set (tags (mk_blog 11 ''alice'' [''bob''] [''carol''] 10)).
      t \<in> set (split_comma ''tech,life'')"
    by (simp add: post_populate)
  from q s1 1 s2 r 2 show ?thesis by blast
qed

section \<open>getAllBlog: the most liked posts\<close>










section \<open>getAllBlog: the pagination offset\<close>

lemma sortQuery_find: "sortBy \<noteq> Some ''mostLiked'' \<Longrightarrow> sortQuery sortBy \<noteq> Likes_desc"
  by (simp add: sortQuery_def)

lemma is_digit_zero: "is_digit 10 CHR ''0''"
  by (simp add: is_digit_def digit_val_def)

lemma strip_sign_set: "set (snd (strip_sign s)) \<subseteq> set s"
  by (auto simp: strip_sign_def split: list.splits if_splits)

lemma strip_prefix_decimal:
  "\<forall>c\<in>set s. \<not> is_digit 10 c \<Longrightarrow> strip_prefix s = (10, s)"
  using is_digit_zero by (auto simp: strip_prefix_def split: list.splits)

lemma takeWhile_none: "\<forall>c\<in>set s. \<not> P c \<Longrightarrow> takeWhile P s = []"
  by (cases s) auto

lemma parseInt_no_digit:
  assumes "\<forall>c\<in>set v. \<not> is_digit 10 c"
  shows "parseInt (Some v) = None"
proof -
  obtain sg s2 where s: "strip_sign (dropWhile is_ws v) = (sg, s2)" by (cases "strip_sign (dropWhile is_ws v)")
  have "set s2 \<subseteq> set (dropWhile is_ws v)" using strip_sign_set [of "dropWhile is_ws v"] s by simp
  also have "\<dots> \<subseteq> set v" by (rule set_dropWhileD [THEN subsetI])
  finally have n: "\<forall>c\<in>set s2. \<not> is_digit 10 c" using assms by blast
  then have "strip_prefix s2 = (10, s2)" by (rule strip_prefix_decimal)
  moreover from n have "takeWhile (is_digit 10) s2 = []" by (rule takeWhile_none)
  ultimately show ?thesis using s by (simp add: parseInt_def)
qed

text \<open>
  C9, as the code has it. For a \<open>getAllBlog\<close> request whose page, limit and offset are
  in the range of the integers that a double represents exactly, the offset
  \<open>startIndex\<close> is \<open>(pagination - 1) * limitation\<close>, where \<open>pagination\<close> is what
  \<^verbatim>\<open>parseInt\<close> reads from the \<open>page\<close> parameter, and 1 when that is \<^verbatim>\<open>NaN\<close> or 0, and
  \<open>limitation\<close> is what \<^verbatim>\<open>parseInt\<close> reads from the \<open>limit\<close> parameter, and 10 when that
  is \<^verbatim>\<open>NaN\<close> or 0. An absent parameter and a parameter without any decimal digit read
  as \<^verbatim>\<open>NaN\<close>, so they take the default. With a valid filter and an offset that is not
  negative, the result is the sorted list of the matching posts without its first
  \<open>startIndex\<close> posts, cut at the limit: the 404 error when nothing is left, and
  otherwise these posts with their authors joined (for \<^verbatim>\<open>mostLiked\<close>, with a limit of
  at least 1, those of them whose author is stored).
\<close>

theorem getAllBlog_offset:
  assumes "safe_integer (pagination q)" and "safe_integer (limitation q)"
    and "safe_integer ((pagination q - 1) * limitation q)"
  shows "startIndex q = (pagination q - 1) * limitation q \<and>
    pagination q = (case parseInt (q_page q) of None \<Rightarrow> 1 | Some p \<Rightarrow> if p = 0 then 1 else p) \<and>
    limitation q = (case parseInt (q_limit q) of None \<Rightarrow> 10 | Some l \<Rightarrow> if l = 0 then 10 else l) \<and>
    (q_page q = None \<longrightarrow> pagination q = 1) \<and>
    (q_limit q = None \<longrightarrow> limitation q = 10) \<and>
    (\<forall>v. q_page q = Some v \<longrightarrow> (\<forall>c\<in>set v. \<not> is_digit 10 c) \<longrightarrow> pagination q = 1) \<and>
    (\<forall>v. q_limit q = Some v \<longrightarrow> (\<forall>c\<in>set v. \<not> is_digit 10 c) \<longrightarrow> limitation q = 10) \<and>
    (\<forall>tf rf. tagArray e (q_tags q) = Inr tf \<longrightarrow> titleRegex e (q_title q) = Inr rf \<longrightarrow>
       0 \<le> startIndex q \<longrightarrow> q_sortBy q \<noteq> Some ''mostLiked'' \<longrightarrow>
       getAllBlog e s q =
         (if drop (nat ((pagination q - 1) * limitation q))
               (sort_documents (sortQuery (q_sortBy q))
                  (filter (matches \<lparr>fq_tags = tf, fq_title = rf\<rparr>) (Blogs s))) = []
          then Inl (ApiError ''No blog found'' (Some 404))
          else Inr (map (populate (Users s))
                 (take (nat \<bar>limitation q\<bar>)
                    (drop (nat ((pagination q - 1) * limitation q))
                       (sort_documents (sortQuery (q_sortBy q))
                          (filter (matches \<lparr>fq_tags = tf, fq_title = rf\<rparr>) (Blogs s)))))))) \<and>
    (\<forall>tf rf. tagArray e (q_tags q) = Inr tf \<longrightarrow> titleRegex e (q_title q) = Inr rf \<longrightarrow>
       0 \<le> startIndex q \<longrightarrow> 0 < limitation q \<longrightarrow> q_sortBy q = Some ''mostLiked'' \<longrightarrow>
       getAllBlog e s q =
         (if lookup_unwind (Users s)
               (take (nat (limitation q))
                  (drop (nat ((pagination q - 1) * limitation q))
                     (sort_desc likesCountOf
                        (filter (matches \<lparr>fq_tags = tf, fq_title = rf\<rparr>) (Blogs s))))) = []
          then Inl (ApiError ''No blog found'' (Some 404))
          else Inr (lookup_unwind (Users s)
                 (take (nat (limitation q))
                    (drop (nat ((pagination q - 1) * limitation q))
                       (sort_desc likesCountOf
                          (filter (matches \<lparr>fq_tags = tf, fq_title = rf\<rparr>) (Blogs s))))))))"
proof (intro conjI allI impI)
  show "startIndex q = (pagination q - 1) * limitation q" by (simp add: startIndex_def)
  show "pagination q = (case parseInt (q_page q) of None \<Rightarrow> 1 | Some p \<Rightarrow> if p = 0 then 1 else p)"
    by (simp add: pagination_def or_default_def)
  show "limitation q = (case parseInt (q_limit q) of None \<Rightarrow> 10 | Some l \<Rightarrow> if l = 0 then 10 else l)"
    by (simp add: limitation_def or_default_def)
next
  assume "q_page q = None"
  then show "pagination q = 1" by (simp add: pagination_def or_default_def parseInt_def)
next
  assume "q_limit q = None"
  then show "limitation q = 10" by (simp add: limitation_def or_default_def parseInt_def)
next
  fix v assume "q_page q = Some v" "\<forall>c\<in>set v. \<not> is_digit 10 c"
  then show "pagination q = 1" by (simp add: pagination_def or_default_def parseInt_no_digit)
next
  fix v assume "q_limit q = Some v" "\<forall>c\<in>set v. \<not> is_digit 10 c"
  then show "limitation q = 10" by (simp add: limitation_def or_default_def parseInt_no_digit)
next
  fix tf rf
  assume a: "tagArray e (q_tags q) = Inr tf" "titleRegex e (q_title q) = Inr rf"
    "0 \<le> startIndex q" "q_sortBy q \<noteq> Some ''mostLiked''"
  have z: "limitation q \<noteq> 0" by (simp add: limitation_def or_default_def split: option.splits)
  show "getAllBlog e s q =
         (if drop (nat ((pagination q - 1) * limitation q))
               (sort_documents (sortQuery (q_sortBy q))
                  (filter (matches \<lparr>fq_tags = tf, fq_title = rf\<rparr>) (Blogs s))) = []
          then Inl (ApiError ''No blog found'' (Some 404))
          else Inr (map (populate (Users s))
                 (take (nat \<bar>limitation q\<bar>)
                    (drop (nat ((pagination q - 1) * limitation q))
                       (sort_documents (sortQuery (q_sortBy q))
                          (filter (matches \<lparr>fq_tags = tf, fq_title = rf\<rparr>) (Blogs s)))))))"
    using a z by (simp add: getAllBlog_def find_page_def Let_def startIndex_def)
next
  fix tf rf
  assume a: "tagArray e (q_tags q) = Inr tf" "titleRegex e (q_title q) = Inr rf"
    "0 \<le> startIndex q" "0 < limitation q" "q_sortBy q = Some ''mostLiked''"
  show "getAllBlog e s q =
         (if lookup_unwind (Users s)
               (take (nat (limitation q))
                  (drop (nat ((pagination q - 1) * limitation q))
                     (sort_desc likesCountOf
                        (filter (matches \<lparr>fq_tags = tf, fq_title = rf\<rparr>) (Blogs s))))) = []
          then Inl (ApiError ''No blog found'' (Some 404))
          else Inr (lookup_unwind (Users s)
                 (take (nat (limitation q))
                    (drop (nat ((pagination q - 1) * limitation q))
                       (sort_desc likesCountOf
                          (filter (matches \<lparr>fq_tags = tf, fq_title = rf\<rparr>) (Blogs s)))))))"
    using a by (simp add: getAllBlog_def aggregate_def Let_def startIndex_def)
qed

theorem getAllBlog_offset_witness:
  "safe_integer (pagination (page_query (Some ''3'') (Some ''4''))) \<and>
   safe_integer (limitation (page_query (Some ''3'') (Some ''4''))) \<and>
   safe_integer ((pagination (page_query (Some ''3'') (Some ''4'')) - 1) *
                 limitation (page_query (Some ''3'') (Some ''4''))) \<and>
   startIndex (page_query (Some ''3'') (Some ''4'')) = (3 - 1) * 4 \<and>
   safe_integer (pagination (page_query (Some ''abc'') None)) \<and>
   safe_integer (limitation (page_query (Some ''abc'') None)) \<and>
   safe_integer ((pagination (page_query (Some ''abc'') None) - 1) *
                 limitation (page_query (Some ''abc'') None)) \<and>
   pagination (page_query (Some ''abc'') None) = 1 \<and>
   limitation (page_query (Some ''abc'') None) = 10 \<and>
   startIndex (page_query (Some ''abc'') None) = 0 \<and>
   getAllBlog env0 store2 (page_query (Some ''3'') (Some ''4'')) =
     Inr (map (populate (Users store2))
            [mk_blog 104 ''bob'' (fans 9) [] 4, mk_blog 103 ''alice'' (fans 1) [] 3,
             mk_blog 102 ''bob'' (fans 7) [] 2, mk_blog 101 ''alice'' (fans 3) [] 1])"
proof -
  let ?q = "page_query (Some ''3'') (Some ''4'')"
  let ?d = "page_query (Some ''abc'') None"
  have p: "pagination ?q = 3" and l: "limitation ?q = 4"
    by (simp_all add: page_query_def pagination_def limitation_def or_default_def
      parseInt_def strip_sign_def strip_prefix_def is_ws_def is_digit_def digit_val_def
      digits_value_def)
  have k: "startIndex ?q = 8" by (simp add: startIndex_def p l)
  have s1: "safe_integer (pagination ?q)" "safe_integer (limitation ?q)"
    "safe_integer ((pagination ?q - 1) * limitation ?q)"
    by (simp_all add: p l safe_integer_def)
  have n: "\<forall>c\<in>set ''abc''. \<not> is_digit 10 c" by (simp add: is_digit_def digit_val_def)
  have qd: "q_page ?d = Some ''abc''" "q_limit ?d = None" by (simp_all add: page_query_def)
  have pd: "pagination ?d = 1" and ld: "limitation ?d = 10"
    by (simp_all add: pagination_def limitation_def or_default_def qd parseInt_no_digit [OF n])
      (simp add: parseInt_def)
  have s2: "safe_integer (pagination ?d)" "safe_integer (limitation ?d)"
    "safe_integer ((pagination ?d - 1) * limitation ?d)"
    by (simp_all add: pd ld safe_integer_def)
  note td = getAllBlog_offset [OF s2, of env0 store2]
  from td have d1: "startIndex ?d = 0" by (simp add: pd ld)
  from td n have d2: "pagination ?d = 1" by (simp add: qd)
  from td have d3: "limitation ?d = 10" by (simp add: qd)
  have t: "tagArray env0 (q_tags ?q) = Inr None" "titleRegex env0 (q_title ?q) = Inr None"
    "q_sortBy ?q \<noteq> Some ''mostLiked''" "sortQuery (q_sortBy ?q) = CreatedAt_desc"
    by (simp_all add: page_query_def tagArray_def titleRegex_def sortQuery_def)
  have m: "filter (matches \<lparr>fq_tags = None, fq_title = None\<rparr>) (Blogs store2) = Blogs store2"
    by (simp add: matches_def)
  have r: "drop 8 (sort_documents CreatedAt_desc (Blogs store2)) =
      [mk_blog 104 ''bob'' (fans 9) [] 4, mk_blog 103 ''alice'' (fans 1) [] 3,
       mk_blog 102 ''bob'' (fans 7) [] 2, mk_blog 101 ''alice'' (fans 3) [] 1]"
    by (simp add: store2_def sort_documents_def sort_desc_def mk_blog_def)
  note tq = getAllBlog_offset [OF s1, of env0 store2]
  from tq have q1: "startIndex ?q = (3 - 1) * 4" by (simp add: p l)
  have k0: "0 \<le> startIndex ?q" by (simp add: k)
  from tq [THEN conjunct2, THEN conjunct2, THEN conjunct2, THEN conjunct2, THEN conjunct2,
      THEN conjunct2, THEN conjunct2, THEN conjunct1, rule_format, OF t(1) t(2) k0 t(3)]
  have q2: "getAllBlog env0 store2 ?q =
     Inr (map (populate (Users store2))
            [mk_blog 104 ''bob'' (fans 9) [] 4, mk_blog 103 ''alice'' (fans 1) [] 3,
             mk_blog 102 ''bob'' (fans 7) [] 2, mk_blog 101 ''alice'' (fans 3) [] 1])"
    by (simp only: t(4) m p l) (simp add: r)
  show ?thesis by (intro conjI) (rule s1 s2 q1 d1 d2 d3 q2)+
qed

text \<open>
  C9 as it is stated fails for a page of 0: it is numeric, and the code replaces it by
  the default 1, so that the offset for \<^verbatim>\<open>page=0\<close> and \<^verbatim>\<open>limit=5\<close> is 0 and not
  \<open>(0 - 1) * 5\<close>. A value that only starts with digits, such as \<^verbatim>\<open>12abc\<close>, does not take
  the default either: \<^verbatim>\<open>parseInt\<close> reads the leading digits.
\<close>

theorem getAllBlog_offset_counterexample:
  "parseInt (Some ''0'') = Some 0 \<and> parseInt (Some ''5'') = Some 5 \<and>
   startIndex (page_query (Some ''0'') (Some ''5'')) = 0 \<and>
   startIndex (page_query (Some ''0'') (Some ''5'')) \<noteq> (0 - 1) * 5 \<and>
   pagination (page_query (Some ''12abc'') None) = 12"
  by (simp add: page_query_def startIndex_def pagination_def limitation_def or_default_def
      parseInt_def strip_sign_def strip_prefix_def is_ws_def is_digit_def digit_val_def
      digits_value_def)

end
